theory Spec2Isabelle
  imports Complex_Main "HOL-Library.Word" "HOL-Library.Char_ord" "HOL-Library.List_Lexorder"
begin

section \<open>JavaScript values\<close>

text \<open>
  The values \<^verbatim>\<open>JSON.parse\<close> returns. An object is the list of its own properties, each
  key once (the parser keeps the last of two equal keys). A JSON number is finite, so it is
  modelled by the real number it denotes.
\<close>

datatype json =
    JNull
  | JBool bool
  | JNum real
  | JStr string
  | JArr "json list"
  | JObj "(string \<times> json) list"

datatype js_type = TUndefined | TObject | TBoolean | TNumber | TString

text \<open>\<^verbatim>\<open>typeof v\<close>; \<open>None\<close> is \<^verbatim>\<open>undefined\<close>.\<close>

fun js_typeof :: "json option \<Rightarrow> js_type" where
  "js_typeof None = TUndefined"
| "js_typeof (Some JNull) = TObject"
| "js_typeof (Some (JBool _)) = TBoolean"
| "js_typeof (Some (JNum _)) = TNumber"
| "js_typeof (Some (JStr _)) = TString"
| "js_typeof (Some (JArr _)) = TObject"
| "js_typeof (Some (JObj _)) = TObject"

text \<open>
  \<^verbatim>\<open>v.k\<close> for the property names the routes read (none of them is \<^verbatim>\<open>length\<close> or an
  index, so an array or a string has none of them). On \<^verbatim>\<open>undefined\<close> and \<^verbatim>\<open>null\<close>
  JavaScript throws; the validator guards every such access, and the model returns
  \<^verbatim>\<open>undefined\<close> there.
\<close>

fun get_prop :: "json option \<Rightarrow> string \<Rightarrow> json option" where
  "get_prop (Some (JObj kvs)) k = map_of kvs k"
| "get_prop _ _ = None"

text \<open>\<^verbatim>\<open>!v\<close>.\<close>

fun js_not :: "json option \<Rightarrow> bool" where
  "js_not None = True"
| "js_not (Some JNull) = True"
| "js_not (Some (JBool b)) = (\<not> b)"
| "js_not (Some (JNum n)) = (n = 0)"
| "js_not (Some (JStr s)) = (s = [])"
| "js_not (Some (JArr _)) = False"
| "js_not (Some (JObj _)) = False"

text \<open>\<^verbatim>\<open>String.prototype.toLowerCase\<close> on the ASCII letters.\<close>

definition toLowerChar :: "char \<Rightarrow> char" where
  "toLowerChar c =
     (case map_of (zip ''ABCDEFGHIJKLMNOPQRSTUVWXYZ'' ''abcdefghijklmnopqrstuvwxyz'') c of
        Some d \<Rightarrow> d
      | None \<Rightarrow> c)"

definition toLowerCase :: "string \<Rightarrow> string" where
  "toLowerCase s = map toLowerChar s"

section \<open>The header validator (routes/backups.ts)\<close>

definition validateBackupHeader :: "json \<Rightarrow> string option" where
  "validateBackupHeader header =
     (let h = Some header in
      if js_typeof h \<noteq> TObject \<or> header = JNull then
        Some ''Backup header must be a JSON object''
      else if js_typeof (get_prop h ''agent_id'') \<noteq> TString \<or> js_not (get_prop h ''agent_id'') then
        Some ''Missing or invalid field: agent_id (string)''
      else if js_typeof (get_prop h ''backup_id'') \<noteq> TString \<or> js_not (get_prop h ''backup_id'') then
        Some ''Missing or invalid field: backup_id (string)''
      else if js_typeof (get_prop h ''backup_seq'') \<noteq> TNumber then
        Some ''Missing or invalid field: backup_seq (number)''
      else if js_typeof (get_prop h ''timestamp'') \<noteq> TNumber then
        Some ''Missing or invalid field: timestamp (number)''
      else if js_typeof (get_prop h ''manifest_hash'') \<noteq> TString then
        Some ''Missing or invalid field: manifest_hash (string)''
      else if js_typeof (get_prop h ''files'') \<noteq> TObject \<or> get_prop h ''files'' = Some JNull then
        Some ''Missing or invalid field: files (object)''
      else if js_typeof (get_prop h ''wrapped_keys'') \<noteq> TObject
              \<or> get_prop h ''wrapped_keys'' = Some JNull then
        Some ''Missing or invalid field: wrapped_keys (object)''
      else if js_typeof (get_prop (get_prop h ''wrapped_keys'') ''recovery'') \<noteq> TString
              \<or> js_typeof (get_prop (get_prop h ''wrapped_keys'') ''recall'') \<noteq> TString then
        Some ''wrapped_keys must contain recovery and recall strings''
      else if js_typeof (get_prop h ''signature'') \<noteq> TString \<or> js_not (get_prop h ''signature'') then
        Some ''Missing or invalid field: signature (string)''
      else None)"

section \<open>The database layer (db/index.ts)\<close>

record DbUser =
  github_id :: string
  github_username :: string
  github_created_at :: string
  created_at :: int

record DbAgent =
  agent_id :: string
  github_id :: string
  recovery_pubkey :: string
  manifest_hash :: string
  manifest_version :: real
  registered_at :: int
  status :: string

record DbHeartbeat =
  id' :: int
  agent_id :: string
  agent_timestamp :: int
  received_at :: int
  signature :: string

record DbBackup =
  id' :: string
  agent_id :: string
  arweave_tx_id :: string
  backup_seq :: int
  agent_timestamp :: real
  received_at :: int
  size_bytes :: nat
  manifest_hash :: string

record DbTrustScore =
  agent_id :: string
  score :: real
  level :: string
  unique_attesters :: int
  computed_at :: int

record DbAttestationNote =
  hash :: string
  content :: string
  created_at :: int

text \<open>
  The SQLite database: one list of rows per table, in insertion order. A statement that
  violates a constraint of the schema throws; the model returns \<open>None\<close> and leaves the
  table as it was.
\<close>

record SanctuaryDb =
  users :: "DbUser list"
  agents :: "DbAgent list"
  heartbeats :: "DbHeartbeat list"
  backups :: "DbBackup list"
  trust_scores :: "DbTrustScore list"
  attestation_notes :: "DbAttestationNote list"

definition init :: SanctuaryDb where
  "init = \<lparr>users = [], agents = [], heartbeats = [], backups = [], trust_scores = [],
           attestation_notes = []\<rparr>"

definition getUser :: "SanctuaryDb \<Rightarrow> string \<Rightarrow> DbUser option" where
  "getUser db githubId = find (\<lambda>u. DbUser.github_id u = githubId) (users db)"

definition getAgent :: "SanctuaryDb \<Rightarrow> string \<Rightarrow> DbAgent option" where
  "getAgent db agentId = find (\<lambda>a. DbAgent.agent_id a = agentId) (agents db)"

definition getAgentByGithubId :: "SanctuaryDb \<Rightarrow> string \<Rightarrow> DbAgent option" where
  "getAgentByGithubId db githubId = find (\<lambda>a. DbAgent.github_id a = githubId) (agents db)"

text \<open>
  \<^verbatim>\<open>agent_id TEXT PRIMARY KEY\<close>, \<^verbatim>\<open>github_id TEXT NOT NULL UNIQUE\<close>,
  \<^verbatim>\<open>FOREIGN KEY (github_id) REFERENCES users(github_id)\<close>, with \<^verbatim>\<open>foreign_keys = ON\<close>.
\<close>

definition createAgent :: "DbAgent \<Rightarrow> SanctuaryDb \<Rightarrow> SanctuaryDb option" where
  "createAgent agent db =
     (if DbAgent.agent_id agent \<in> set (map DbAgent.agent_id (agents db))
         \<or> DbAgent.github_id agent \<in> set (map DbAgent.github_id (agents db))
         \<or> DbAgent.github_id agent \<notin> set (map DbUser.github_id (users db))
      then None
      else Some (db\<lparr>agents := agents db @ [agent]\<rparr>))"

definition updateAgentStatus :: "string \<Rightarrow> string \<Rightarrow> SanctuaryDb \<Rightarrow> SanctuaryDb" where
  "updateAgentStatus agentId st db =
     db\<lparr>agents := map (\<lambda>a. if DbAgent.agent_id a = agentId then a\<lparr>status := st\<rparr> else a)
                       (agents db)\<rparr>"

text \<open>
  \<^verbatim>\<open>ORDER BY k DESC LIMIT 1\<close>: a row with the greatest key, the earliest inserted one
  among equals.
\<close>

fun greatest_by :: "('a \<Rightarrow> int) \<Rightarrow> 'a list \<Rightarrow> 'a option" where
  "greatest_by k [] = None"
| "greatest_by k (x # xs) =
     (case greatest_by k xs of
        None \<Rightarrow> Some x
      | Some y \<Rightarrow> if k x < k y then Some y else Some x)"

definition getLatestHeartbeat :: "SanctuaryDb \<Rightarrow> string \<Rightarrow> DbHeartbeat option" where
  "getLatestHeartbeat db agentId =
     greatest_by DbHeartbeat.received_at
       (filter (\<lambda>h. DbHeartbeat.agent_id h = agentId) (heartbeats db))"

text \<open>
  \<^verbatim>\<open>id TEXT PRIMARY KEY\<close>, \<^verbatim>\<open>FOREIGN KEY (agent_id) REFERENCES agents(agent_id)\<close>.
\<close>

definition createBackup :: "DbBackup \<Rightarrow> SanctuaryDb \<Rightarrow> SanctuaryDb option" where
  "createBackup backup db =
     (if DbBackup.id' backup \<in> set (map DbBackup.id' (backups db))
         \<or> DbBackup.agent_id backup \<notin> set (map DbAgent.agent_id (agents db))
      then None
      else Some (db\<lparr>backups := backups db @ [backup]\<rparr>))"

definition backups_of :: "SanctuaryDb \<Rightarrow> string \<Rightarrow> DbBackup list" where
  "backups_of db agentId = filter (\<lambda>b. DbBackup.agent_id b = agentId) (backups db)"

definition getLatestBackup :: "SanctuaryDb \<Rightarrow> string \<Rightarrow> DbBackup option" where
  "getLatestBackup db agentId = greatest_by backup_seq (backups_of db agentId)"

text \<open>
  \<^verbatim>\<open>ORDER BY backup_seq DESC LIMIT ?\<close>; a negative limit is no limit in SQLite.
\<close>

definition getBackupsByAgent :: "SanctuaryDb \<Rightarrow> string \<Rightarrow> int \<Rightarrow> DbBackup list" where
  "getBackupsByAgent db agentId limit =
     (let rows = rev (sort_key backup_seq (backups_of db agentId))
      in if limit < 0 then rows else take (nat limit) rows)"

definition getBackupCount :: "SanctuaryDb \<Rightarrow> string \<Rightarrow> nat" where
  "getBackupCount db agentId = length (backups_of db agentId)"

definition getNextBackupSeq :: "SanctuaryDb \<Rightarrow> string \<Rightarrow> int" where
  "getNextBackupSeq db agentId =
     (case getLatestBackup db agentId of
        Some latest \<Rightarrow> backup_seq latest + 1
      | None \<Rightarrow> 1)"

definition getTrustScore :: "SanctuaryDb \<Rightarrow> string \<Rightarrow> DbTrustScore option" where
  "getTrustScore db agentId = find (\<lambda>t. DbTrustScore.agent_id t = agentId) (trust_scores db)"

text \<open>\<^verbatim>\<open>INSERT OR IGNORE\<close> on \<^verbatim>\<open>hash TEXT PRIMARY KEY\<close>: a row whose hash is taken is dropped.\<close>

definition createAttestationNote :: "DbAttestationNote \<Rightarrow> SanctuaryDb \<Rightarrow> SanctuaryDb" where
  "createAttestationNote note db =
     (if hash note \<in> set (map hash (attestation_notes db)) then db
      else db\<lparr>attestation_notes := attestation_notes db @ [note]\<rparr>)"

definition getAttestationNote :: "SanctuaryDb \<Rightarrow> string \<Rightarrow> DbAttestationNote option" where
  "getAttestationNote db h = find (\<lambda>n. hash n = h) (attestation_notes db)"

section \<open>Configuration and helpers that the routes import\<close>

record Config =
  port :: int
  publicUrl :: string
  jwtSecret :: string
  contractAddress :: string
  chainId :: int
  backupSizeLimit :: int

text \<open>
  The helpers of \<^verbatim>\<open>utils/crypto.js\<close> and the decoding of the header line are taken as
  parameters: \<open>decodeHeader\<close> is
  \<^verbatim>\<open>JSON.parse(Buffer.from(headerB64, 'base64').toString('utf-8'))\<close>, \<open>None\<close> when it throws.
\<close>

record Utils =
  decodeHeader :: "string \<Rightarrow> json option"
  verifyBackupHeaderSignature :: "json \<Rightarrow> string \<Rightarrow> bool"
  isValidAddress :: "string \<Rightarrow> bool"
  normalizeAddress :: "string \<Rightarrow> string"

section \<open>POST /backups/upload\<close>

text \<open>\<^verbatim>\<open>request.headers[name]\<close> is a string, a list of strings, or absent.\<close>

datatype header_value = Single string | Multiple "string list"

text \<open>
  The request after the \<^verbatim>\<open>verifyAgentAuth\<close> pre-handler, which sets \<open>agentId\<close>.
\<close>

record UploadRequest =
  agentId :: string
  x_backup_header :: "header_value option"
  body :: "8 word list option"

text \<open>What the handler reads from outside: the clock (twice) and two fresh UUIDs.\<close>

record UploadEnv =
  now :: int
  uuid_tx :: string
  uuid_backup :: string
  receivedAt :: int

datatype upload_error =
    MissingHeader
  | InvalidHeaderEncoding
  | InvalidHeader string
  | AgentIdMismatch
  | InvalidSignature
  | EmptyBody
  | ExceedsSizeLimit int
  | AgentNotFound
  | AgentStatusForbidden string
  | DailyLimit int
  | InsertFailed

text \<open>The status the reply carries; an exception that escapes the handler is answered 500.\<close>

fun status_code :: "upload_error \<Rightarrow> nat" where
  "status_code MissingHeader = 400"
| "status_code InvalidHeaderEncoding = 400"
| "status_code (InvalidHeader _) = 400"
| "status_code AgentIdMismatch = 403"
| "status_code InvalidSignature = 403"
| "status_code EmptyBody = 400"
| "status_code (ExceedsSizeLimit _) = 413"
| "status_code AgentNotFound = 404"
| "status_code (AgentStatusForbidden _) = 403"
| "status_code (DailyLimit _) = 429"
| "status_code InsertFailed = 500"

record UploadData =
  backup_id :: string
  backup_seq :: int
  arweave_tx_id :: string
  size_bytes :: nat
  received_at :: int

datatype upload_reply = Rejected upload_error | Created UploadData

definition SECONDS_PER_DAY :: int where
  "SECONDS_PER_DAY = 24 * 60 * 60"

text \<open>
  Lines 76 to 117: the header is read, decoded, validated, matched and verified. A
  validated header holds a string under \<^verbatim>\<open>agent_id\<close>, so the last branch of the
  innermost case is never taken.
\<close>

definition check_header :: "Utils \<Rightarrow> UploadRequest \<Rightarrow> upload_error + json" where
  "check_header u request =
     (case x_backup_header request of
        None \<Rightarrow> Inl MissingHeader
      | Some (Multiple _) \<Rightarrow> Inl MissingHeader
      | Some (Single headerB64) \<Rightarrow>
          if headerB64 = [] then Inl MissingHeader
          else
            (case decodeHeader u headerB64 of
               None \<Rightarrow> Inl InvalidHeaderEncoding
             | Some backupHeader \<Rightarrow>
                 (case validateBackupHeader backupHeader of
                    Some headerError \<Rightarrow> Inl (InvalidHeader headerError)
                  | None \<Rightarrow>
                      (case get_prop (Some backupHeader) ''agent_id'' of
                         Some (JStr header_agent_id) \<Rightarrow>
                           if toLowerCase header_agent_id \<noteq> toLowerCase (agentId request) then
                             Inl AgentIdMismatch
                           else if \<not> verifyBackupHeaderSignature u backupHeader (agentId request) then
                             Inl InvalidSignature
                           else Inr backupHeader
                       | _ \<Rightarrow> Inl (InvalidHeader ''Missing or invalid field: agent_id (string)'')))))"

text \<open>Lines 119 to 133: the body is present and within the size limit.\<close>

definition check_body :: "Config \<Rightarrow> UploadRequest \<Rightarrow> upload_error + 8 word list" where
  "check_body config request =
     (case body request of
        None \<Rightarrow> Inl EmptyBody
      | Some b \<Rightarrow>
          if length b = 0 then Inl EmptyBody
          else if int (length b) > backupSizeLimit config then
            Inl (ExceedsSizeLimit (backupSizeLimit config))
          else Inr b)"

text \<open>Lines 135 to 149: the agent exists and is active.\<close>

definition check_agent :: "SanctuaryDb \<Rightarrow> string \<Rightarrow> upload_error + DbAgent" where
  "check_agent db aid =
     (case getAgent db aid of
        None \<Rightarrow> Inl AgentNotFound
      | Some agent \<Rightarrow>
          if status agent \<noteq> ''LIVING'' \<and> status agent \<noteq> ''RETURNED'' then
            Inl (AgentStatusForbidden (status agent))
          else Inr agent)"

text \<open>Lines 151 to 165: one backup per 24 hours per agent.\<close>

definition check_daily_limit :: "SanctuaryDb \<Rightarrow> string \<Rightarrow> int \<Rightarrow> upload_error option" where
  "check_daily_limit db aid now_s =
     (case getLatestBackup db aid of
        None \<Rightarrow> None
      | Some latestBackup \<Rightarrow>
          (let timeSinceLastBackup = now_s - DbBackup.received_at latestBackup in
           if timeSinceLastBackup < SECONDS_PER_DAY then
             Some (DailyLimit \<lceil>real_of_int (SECONDS_PER_DAY - timeSinceLastBackup) / 3600\<rceil>)
           else None))"

text \<open>\<^verbatim>\<open>backupHeader.timestamp || receivedAt\<close> and \<^verbatim>\<open>backupHeader.manifest_hash || ''\<close>.\<close>

definition timestamp_or :: "json \<Rightarrow> int \<Rightarrow> real" where
  "timestamp_or backupHeader r =
     (case get_prop (Some backupHeader) ''timestamp'' of
        Some (JNum t) \<Rightarrow> if t = 0 then real_of_int r else t
      | _ \<Rightarrow> real_of_int r)"

definition manifest_hash_or_empty :: "json \<Rightarrow> string" where
  "manifest_hash_or_empty backupHeader =
     (case get_prop (Some backupHeader) ''manifest_hash'' of
        Some (JStr m) \<Rightarrow> m
      | _ \<Rightarrow> [])"

text \<open>Lines 172 to 206: the sequence number is assigned and the record is written.\<close>

definition record_backup ::
  "UploadEnv \<Rightarrow> string \<Rightarrow> json \<Rightarrow> 8 word list \<Rightarrow> SanctuaryDb \<Rightarrow> upload_reply \<times> SanctuaryDb" where
  "record_backup env aid backupHeader b db =
     (let arweaveTxId = ''simulated_'' @ uuid_tx env;
          backupSeq = getNextBackupSeq db aid;
          backupId = uuid_backup env
      in case createBackup
                \<lparr>id' = backupId, agent_id = aid, arweave_tx_id = arweaveTxId,
                 backup_seq = backupSeq,
                 agent_timestamp = timestamp_or backupHeader (receivedAt env),
                 received_at = receivedAt env, size_bytes = length b,
                 manifest_hash = manifest_hash_or_empty backupHeader\<rparr> db of
           None \<Rightarrow> (Rejected InsertFailed, db)
         | Some db' \<Rightarrow>
             (Created \<lparr>backup_id = backupId, backup_seq = backupSeq,
                       arweave_tx_id = arweaveTxId, size_bytes = length b,
                       received_at = receivedAt env\<rparr>, db'))"

definition upload ::
  "Utils \<Rightarrow> Config \<Rightarrow> UploadEnv \<Rightarrow> UploadRequest \<Rightarrow> SanctuaryDb \<Rightarrow> upload_reply \<times> SanctuaryDb" where
  "upload u config env request db =
     (case check_header u request of
        Inl e \<Rightarrow> (Rejected e, db)
      | Inr backupHeader \<Rightarrow>
          (case check_body config request of
             Inl e \<Rightarrow> (Rejected e, db)
           | Inr b \<Rightarrow>
               (case check_agent db (agentId request) of
                  Inl e \<Rightarrow> (Rejected e, db)
                | Inr agent \<Rightarrow>
                    (case check_daily_limit db (agentId request) (now env) of
                       Some e \<Rightarrow> (Rejected e, db)
                     | None \<Rightarrow> record_backup env (agentId request) backupHeader b db))))"

section \<open>GET /backups/:agentId and GET /backups/:agentId/latest\<close>

text \<open>
  A reply: a failure with its status and message, or the data sent with a status. The
  argument \<open>caller\<close> of a handler is \<^verbatim>\<open>request.agentId\<close>, set by \<^verbatim>\<open>verifyAgentAuth\<close>.
\<close>

datatype 'a reply = Failed nat string | Sent nat 'a

definition backup_json :: "DbBackup \<Rightarrow> json" where
  "backup_json b = JObj
     [(''id'', JStr (DbBackup.id' b)),
      (''backup_seq'', JNum (real_of_int (DbBackup.backup_seq b))),
      (''arweave_tx_id'', JStr (DbBackup.arweave_tx_id b)),
      (''timestamp'', JNum (DbBackup.agent_timestamp b)),
      (''received_at'', JNum (real_of_int (DbBackup.received_at b))),
      (''size_bytes'', JNum (real (DbBackup.size_bytes b))),
      (''manifest_hash'', JStr (DbBackup.manifest_hash b))]"

text \<open>\<^verbatim>\<open>request.query.limit || 30\<close>, then \<^verbatim>\<open>Math.min(limit, 100)\<close>.\<close>

definition list_limit :: "int option \<Rightarrow> int" where
  "list_limit q = min (case q of None \<Rightarrow> 30 | Some l \<Rightarrow> if l = 0 then 30 else l) 100"

definition listBackups ::
  "Utils \<Rightarrow> SanctuaryDb \<Rightarrow> string \<Rightarrow> string \<Rightarrow> int option \<Rightarrow> json reply" where
  "listBackups u db caller agentId_param limit =
     (if \<not> isValidAddress u agentId_param then Failed 400 ''Invalid agent ID''
      else
        let normalizedId = normalizeAddress u agentId_param in
        if toLowerCase normalizedId \<noteq> toLowerCase caller then
          Failed 403 ''Cannot list backups for another agent''
        else
          let rows = getBackupsByAgent db normalizedId (list_limit limit) in
          Sent 200 (JObj [(''agent_id'', JStr normalizedId),
                          (''count'', JNum (real (length rows))),
                          (''backups'', JArr (map backup_json rows))]))"

definition latestBackup :: "Utils \<Rightarrow> SanctuaryDb \<Rightarrow> string \<Rightarrow> string \<Rightarrow> json reply" where
  "latestBackup u db caller agentId_param =
     (if \<not> isValidAddress u agentId_param then Failed 400 ''Invalid agent ID''
      else
        let normalizedId = normalizeAddress u agentId_param in
        if toLowerCase normalizedId \<noteq> toLowerCase caller then
          Failed 403 ''Cannot view backups for another agent''
        else
          (case getLatestBackup db normalizedId of
             None \<Rightarrow> Failed 404 ''No backups found for agent''
           | Some backup \<Rightarrow> Sent 200 (backup_json backup)))"

section \<open>JSON.stringify\<close>

text \<open>
  \<^verbatim>\<open>JSON.stringify\<close> on the values above. Characters are code units below 256. How a
  number prints (\<^verbatim>\<open>Number.prototype.toString\<close>) is the parameter \<open>fmt\<close>.
\<close>

definition hex_digit :: "nat \<Rightarrow> char" where
  "hex_digit n = ''0123456789abcdef'' ! (n mod 16)"

definition escape_char :: "char \<Rightarrow> string" where
  "escape_char c =
     (if c = CHR 0x22 then [CHR 0x5C, CHR 0x22]
      else if c = CHR 0x5C then [CHR 0x5C, CHR 0x5C]
      else if c = CHR 0x08 then [CHR 0x5C, CHR ''b'']
      else if c = CHR 0x0C then [CHR 0x5C, CHR ''f'']
      else if c = CHR 0x0A then [CHR 0x5C, CHR ''n'']
      else if c = CHR 0x0D then [CHR 0x5C, CHR ''r'']
      else if c = CHR 0x09 then [CHR 0x5C, CHR ''t'']
      else if (of_char c :: nat) < 32 then
        [CHR 0x5C, CHR ''u'', CHR ''0'', CHR ''0'',
         hex_digit (of_char c div 16), hex_digit (of_char c)]
      else [c])"

definition quote :: "string \<Rightarrow> string" where
  "quote s = CHR 0x22 # concat (map escape_char s) @ [CHR 0x22]"

fun stringify :: "(real \<Rightarrow> string) \<Rightarrow> json \<Rightarrow> string"
  and stringify_elements :: "(real \<Rightarrow> string) \<Rightarrow> json list \<Rightarrow> string"
  and stringify_members :: "(real \<Rightarrow> string) \<Rightarrow> (string \<times> json) list \<Rightarrow> string" where
  "stringify fmt JNull = ''null''"
| "stringify fmt (JBool b) = (if b then ''true'' else ''false'')"
| "stringify fmt (JNum x) = fmt x"
| "stringify fmt (JStr s) = quote s"
| "stringify fmt (JArr xs) = ''['' @ stringify_elements fmt xs @ '']''"
| "stringify fmt (JObj kvs) = ''{'' @ stringify_members fmt kvs @ ''}''"
| "stringify_elements fmt [] = []"
| "stringify_elements fmt [x] = stringify fmt x"
| "stringify_elements fmt (x # y # ys) = stringify fmt x @ '','' @ stringify_elements fmt (y # ys)"
| "stringify_members fmt [] = []"
| "stringify_members fmt [(k, v)] = quote k @ '':'' @ stringify fmt v"
| "stringify_members fmt ((k, v) # m # ms) =
     quote k @ '':'' @ stringify fmt v @ '','' @ stringify_members fmt (m # ms)"

section \<open>POST /agents/:agentId/proof\<close>

text \<open>
  Node's \<^verbatim>\<open>createHash('sha256')\<close> and \<^verbatim>\<open>createHmac('sha256', key)\<close> with a hexadecimal
  digest, and the printing of numbers, are parameters.
\<close>

record Runtime =
  sha256_hex :: "string \<Rightarrow> string"
  hmac_sha256_hex :: "string \<Rightarrow> string \<Rightarrow> string"
  number_toString :: "real \<Rightarrow> string"

record ProofPayload =
  agent_id :: string
  backup_count :: nat
  chain_id :: int
  contract_address :: string
  issued_at :: int
  last_heartbeat :: "int option"
  registered_at :: int
  status :: string
  trust_level :: string
  trust_score :: real

text \<open>The object literal \<^verbatim>\<open>payload\<close>, its keys in the order they are written.\<close>

definition payload_json :: "ProofPayload \<Rightarrow> json" where
  "payload_json p = JObj
     [(''agent_id'', JStr (ProofPayload.agent_id p)),
      (''backup_count'', JNum (real (backup_count p))),
      (''chain_id'', JNum (real_of_int (chain_id p))),
      (''contract_address'', JStr (contract_address p)),
      (''issued_at'', JNum (real_of_int (issued_at p))),
      (''last_heartbeat'',
         (case last_heartbeat p of None \<Rightarrow> JNull | Some t \<Rightarrow> JNum (real_of_int t))),
      (''registered_at'', JNum (real_of_int (ProofPayload.registered_at p))),
      (''status'', JStr (ProofPayload.status p)),
      (''trust_level'', JStr (trust_level p)),
      (''trust_score'', JNum (trust_score p))]"

text \<open>
  Lines 596 to 608. \<^verbatim>\<open>x || d\<close> takes \<open>d\<close> when \<open>x\<close> is absent, zero or the empty string.
\<close>

definition build_payload :: "Config \<Rightarrow> SanctuaryDb \<Rightarrow> DbAgent \<Rightarrow> string \<Rightarrow> int \<Rightarrow> ProofPayload" where
  "build_payload config db agent normalizedId now_s =
     (let trustScore = getTrustScore db normalizedId;
          latestHeartbeat = getLatestHeartbeat db normalizedId;
          backupCount = getBackupCount db normalizedId
      in \<lparr>ProofPayload.agent_id = DbAgent.agent_id agent,
          backup_count = backupCount,
          chain_id = chainId config,
          contract_address = contractAddress config,
          issued_at = now_s,
          last_heartbeat =
            (case latestHeartbeat of
               None \<Rightarrow> None
             | Some hb \<Rightarrow>
                 if DbHeartbeat.received_at hb = 0 then None
                 else Some (DbHeartbeat.received_at hb)),
          registered_at = DbAgent.registered_at agent,
          status = DbAgent.status agent,
          trust_level =
            (case trustScore of
               None \<Rightarrow> ''UNVERIFIED''
             | Some t \<Rightarrow> if level t = [] then ''UNVERIFIED'' else level t),
          trust_score = (case trustScore of None \<Rightarrow> 0 | Some t \<Rightarrow> score t)\<rparr>)"

record IdentityProof =
  payload :: ProofPayload
  proof_hash :: string
  server_signature :: string
  verify_url :: string

text \<open>Lines 610 to 628: the digest of the serialised payload, signed with the JWT secret.\<close>

definition sign_payload :: "Runtime \<Rightarrow> Config \<Rightarrow> string \<Rightarrow> ProofPayload \<Rightarrow> IdentityProof" where
  "sign_payload rt config normalizedId p =
     (let payloadJson = stringify (number_toString rt) (payload_json p);
          proofHash = sha256_hex rt payloadJson;
          serverSignature = hmac_sha256_hex rt (jwtSecret config) proofHash
      in \<lparr>payload = p, proof_hash = proofHash, server_signature = serverSignature,
          verify_url =
            (if publicUrl config \<noteq> [] then
               publicUrl config @ ''/agents/'' @ normalizedId @ ''/status''
             else
               ''http://localhost:'' @ number_toString rt (real_of_int (port config))
                 @ ''/agents/'' @ normalizedId @ ''/status'')\<rparr>)"

definition generateProof ::
  "Utils \<Rightarrow> Runtime \<Rightarrow> Config \<Rightarrow> SanctuaryDb \<Rightarrow> int \<Rightarrow> string \<Rightarrow> string \<Rightarrow> IdentityProof reply" where
  "generateProof u rt config db now_s caller agentId_param =
     (if \<not> isValidAddress u agentId_param then Failed 400 ''Invalid agent ID''
      else
        let normalizedId = normalizeAddress u agentId_param in
        if normalizedId \<noteq> caller then
          Failed 403 ''Can only generate proof for your own agent''
        else
          (case getAgent db normalizedId of
             None \<Rightarrow> Failed 404 ''Agent not found''
           | Some agent \<Rightarrow>
               Sent 200 (sign_payload rt config normalizedId
                           (build_payload config db agent normalizedId now_s))))"

text \<open>
  Modelled from the spec: the third party's \<^verbatim>\<open>IdentityProof.verify\<close> of section 4.6, which
  is not in the repository's source. It recomputes the digest over the payload fields as
  given, confirms that it equals \<^verbatim>\<open>proof_hash\<close>, and confirms that \<^verbatim>\<open>server_signature\<close>
  validates against the issuing server's shared secret.
\<close>

definition verify_proof :: "Runtime \<Rightarrow> string \<Rightarrow> IdentityProof \<Rightarrow> bool" where
  "verify_proof rt secret pr =
     (sha256_hex rt (stringify (number_toString rt) (payload_json (payload pr))) = proof_hash pr
      \<and> hmac_sha256_hex rt secret (proof_hash pr) = server_signature pr)"

section \<open>POST /agents/register\<close>

text \<open>
  The decoded token is \<open>None\<close> when \<^verbatim>\<open>request.jwtVerify\<close> throws. A body field is \<open>None\<close>
  when the request leaves it out.
\<close>

record JwtPayload =
  type' :: string
  githubId :: "string option"

record RegisterBody =
  agentId :: "string option"
  recoveryPubKey :: "string option"
  manifestHash :: "string option"
  manifestVersion :: "real option"

record RegisterRequest =
  jwt :: "JwtPayload option"
  body :: RegisterBody

text \<open>\<^verbatim>\<open>/^0x[a-fA-F0-9]{64}$/.test(s)\<close>.\<close>

definition is_0x_hex64 :: "string \<Rightarrow> bool" where
  "is_0x_hex64 s =
     (length s = 66 \<and> take 2 s = ''0x''
      \<and> list_all (\<lambda>c. c \<in> set ''0123456789abcdefABCDEF'') (drop 2 s))"

text \<open>\<^verbatim>\<open>!s\<close> for an optional string.\<close>

definition absent :: "string option \<Rightarrow> bool" where
  "absent s = (case s of None \<Rightarrow> True | Some v \<Rightarrow> v = [])"

definition register ::
  "Utils \<Rightarrow> int \<Rightarrow> RegisterRequest \<Rightarrow> SanctuaryDb \<Rightarrow> json reply \<times> SanctuaryDb" where
  "register u now_s request db =
     (case jwt request of
        None \<Rightarrow> (Failed 401 ''Authentication required'', db)
      | Some decoded \<Rightarrow>
          if type' decoded \<noteq> ''github'' \<or> absent (githubId decoded) then
            (Failed 401 ''GitHub authentication required for registration'', db)
          else if absent (RegisterBody.agentId (RegisterRequest.body request))
                  \<or> \<not> isValidAddress u (the (RegisterBody.agentId (RegisterRequest.body request))) then
            (Failed 400 ''Invalid agent ID (must be valid Ethereum address)'', db)
          else if absent (recoveryPubKey (RegisterRequest.body request))
                  \<or> \<not> is_0x_hex64 (the (recoveryPubKey (RegisterRequest.body request))) then
            (Failed 400 ''Invalid recovery public key (must be 32 bytes hex)'', db)
          else if absent (manifestHash (RegisterRequest.body request))
                  \<or> \<not> is_0x_hex64 (the (manifestHash (RegisterRequest.body request))) then
            (Failed 400 ''Invalid manifest hash'', db)
          else
            let normalizedId =
                  normalizeAddress u (the (RegisterBody.agentId (RegisterRequest.body request)));
                gid = the (githubId decoded)
            in if getAgent db normalizedId \<noteq> None then
                 (Failed 409 ''Agent already registered'', db)
               else if getAgentByGithubId db gid \<noteq> None then
                 (Failed 409 ''GitHub account already has a registered agent'', db)
               else if getUser db gid = None then
                 (Failed 400 ''User not found. Complete GitHub auth first.'', db)
               else
                 (case createAgent
                         \<lparr>DbAgent.agent_id = normalizedId, github_id = gid,
                          recovery_pubkey =
                            toLowerCase (the (recoveryPubKey (RegisterRequest.body request))),
                          manifest_hash =
                            toLowerCase (the (manifestHash (RegisterRequest.body request))),
                          manifest_version =
                            (case manifestVersion (RegisterRequest.body request) of
                               None \<Rightarrow> 1
                             | Some v \<Rightarrow> if v = 0 then 1 else v),
                          registered_at = now_s, status = ''LIVING''\<rparr> db of
                    None \<Rightarrow> (Failed 500 ''Internal Server Error'', db)
                  | Some db' \<Rightarrow>
                      (Sent 201 (JObj [(''agent_id'', JStr normalizedId),
                                       (''registered_at'', JNum (real_of_int now_s)),
                                       (''status'', JStr ''LIVING'')]), db')))"

section \<open>Trust levels (shared types)\<close>

datatype TrustLevel = UNVERIFIED | VERIFIED | ESTABLISHED | PILLAR

fun TRUST_THRESHOLDS :: "TrustLevel \<Rightarrow> real" where
  "TRUST_THRESHOLDS UNVERIFIED = 0"
| "TRUST_THRESHOLDS VERIFIED = 20"
| "TRUST_THRESHOLDS ESTABLISHED = 50"
| "TRUST_THRESHOLDS PILLAR = 100"

text \<open>
  Modelled from the spec: the tiering of section 4.5. The source declares the thresholds
  only; the function that applies them is not in the repository's source. A level is
  reached at its threshold: below 20 is UNVERIFIED, from 20 VERIFIED, from 50 ESTABLISHED,
  from 100 PILLAR.
\<close>

definition trustLevel :: "real \<Rightarrow> TrustLevel" where
  "trustLevel s =
     (if TRUST_THRESHOLDS PILLAR \<le> s then PILLAR
      else if TRUST_THRESHOLDS ESTABLISHED \<le> s then ESTABLISHED
      else if TRUST_THRESHOLDS VERIFIED \<le> s then VERIFIED
      else UNVERIFIED)"

section \<open>The states the server reaches\<close>

text \<open>
  The table of backups is written by the upload handler only; every other route and job
  leaves it as it is.
\<close>

inductive reachable :: "SanctuaryDb \<Rightarrow> bool" where
  start: "reachable init"
| upload_step: "reachable db \<Longrightarrow> reachable (snd (upload u config env request db))"
| other_step: "reachable db \<Longrightarrow> backups db' = backups db \<Longrightarrow> reachable db'"

definition seqs_of :: "SanctuaryDb \<Rightarrow> string \<Rightarrow> int list" where
  "seqs_of db a = map DbBackup.backup_seq (backups_of db a)"

text \<open>The request passes every check that comes before the daily limit.\<close>

definition passes_earlier_checks :: "Utils \<Rightarrow> Config \<Rightarrow> UploadRequest \<Rightarrow> SanctuaryDb \<Rightarrow> bool" where
  "passes_earlier_checks u config request db =
     (\<not> isl (check_header u request) \<and> \<not> isl (check_body config request)
      \<and> \<not> isl (check_agent db (UploadRequest.agentId request)))"

section \<open>Reading the proof's serialisation\<close>

text \<open>
  The characters a finite number prints with, and what the statements about a tampered
  proof ask of the printing of numbers: on the set \<open>N\<close> of numbers at hand, different
  numbers print differently, and with these characters only.
\<close>

definition number_chars :: "char set" where
  "number_chars = set ''0123456789+-.e''"

definition prints_injectively :: "(real \<Rightarrow> string) \<Rightarrow> real set \<Rightarrow> bool" where
  "prints_injectively fmt N = (inj_on fmt N \<and> (\<forall>x\<in>N. set (fmt x) \<subseteq> number_chars))"

definition payload_numbers :: "ProofPayload \<Rightarrow> real set" where
  "payload_numbers p =
     {real (backup_count p), real_of_int (chain_id p), real_of_int (issued_at p),
      real_of_int (ProofPayload.registered_at p), trust_score p}
     \<union> (case last_heartbeat p of None \<Rightarrow> {} | Some t \<Rightarrow> {real_of_int t})"

text \<open>A value without parts: \<^verbatim>\<open>null\<close>, a number of \<open>N\<close> or a string.\<close>

fun primitive :: "real set \<Rightarrow> json \<Rightarrow> bool" where
  "primitive N JNull = True"
| "primitive N (JNum x) = (x \<in> N)"
| "primitive N (JStr s) = True"
| "primitive N _ = False"

text \<open>The character that an escape sequence stands for.\<close>

definition hex_value :: "char \<Rightarrow> nat" where
  "hex_value c =
     (case map_of
        [(CHR ''0'', 0), (CHR ''1'', 1), (CHR ''2'', 2), (CHR ''3'', 3), (CHR ''4'', 4),
         (CHR ''5'', 5), (CHR ''6'', 6), (CHR ''7'', 7), (CHR ''8'', 8), (CHR ''9'', 9),
         (CHR ''a'', 10), (CHR ''b'', 11), (CHR ''c'', 12), (CHR ''d'', 13), (CHR ''e'', 14),
         (CHR ''f'', 15)] c of
        Some n \<Rightarrow> n
      | None \<Rightarrow> 0)"

fun unescape :: "string \<Rightarrow> char" where
  "unescape [c] = c"
| "unescape [b, x] =
     (if x = CHR ''b'' then CHR 0x08
      else if x = CHR ''f'' then CHR 0x0C
      else if x = CHR ''n'' then CHR 0x0A
      else if x = CHR ''r'' then CHR 0x0D
      else if x = CHR ''t'' then CHR 0x09
      else x)"
| "unescape [b, x, y, z, h, l] = char_of (16 * hex_value h + hex_value l)"
| "unescape _ = CHR 0x00"

section \<open>Example data\<close>

text \<open>
  A registered agent, two header lines and an instance of the imported helpers, used where
  a statement is evaluated on a concrete request. The address has decimal digits only, so
  every letter-case normalisation leaves it as it is. \<open>example_utils\<close> decodes the two
  header lines to the values Node's \<^verbatim>\<open>JSON.parse\<close> gives for them, accepts the signature
  \<^verbatim>\<open>0xsig\<close>, and takes an address to be \<^verbatim>\<open>0x\<close> and forty hexadecimal digits.
\<close>

definition example_agent_id :: string where
  "example_agent_id = ''0x1111111111111111111111111111111111111111''"

definition header_full :: json where
  "header_full = JObj
     [(''agent_id'', JStr example_agent_id), (''backup_id'', JStr ''b-1''),
      (''backup_seq'', JNum 1), (''timestamp'', JNum 1700000000),
      (''manifest_hash'', JStr ''0xabc''), (''manifest_version'', JNum 1),
      (''prev_backup_hash'', JStr ''''), (''files'', JObj []),
      (''wrapped_keys'', JObj [(''recovery'', JStr ''r''), (''recall'', JStr ''c'')]),
      (''signature'', JStr ''0xsig'')]"

definition header_full_b64 :: string where
  "header_full_b64 = ''eyJhZ2VudF9pZCI6IjB4MTExMTExMTExMTExMTExMTExMTExMTExMTExMTExMTExMTExMTExMSIsImJhY2t1cF9pZCI6ImItMSIsImJhY2t1cF9zZXEiOjEsInRpbWVzdGFtcCI6MTcwMDAwMDAwMCwibWFuaWZlc3RfaGFzaCI6IjB4YWJjIiwibWFuaWZlc3RfdmVyc2lvbiI6MSwicHJldl9iYWNrdXBfaGFzaCI6IiIsImZpbGVzIjp7fSwid3JhcHBlZF9rZXlzIjp7InJlY292ZXJ5IjoiciIsInJlY2FsbCI6ImMifSwic2lnbmF0dXJlIjoiMHhzaWcifQ==''"

text \<open>The same header without \<^verbatim>\<open>manifest_version\<close> and \<^verbatim>\<open>prev_backup_hash\<close>.\<close>

definition header_short :: json where
  "header_short = JObj
     [(''agent_id'', JStr example_agent_id), (''backup_id'', JStr ''b-1''),
      (''backup_seq'', JNum 1), (''timestamp'', JNum 1700000000),
      (''manifest_hash'', JStr ''0xabc''), (''files'', JObj []),
      (''wrapped_keys'', JObj [(''recovery'', JStr ''r''), (''recall'', JStr ''c'')]),
      (''signature'', JStr ''0xsig'')]"

definition header_short_b64 :: string where
  "header_short_b64 = ''eyJhZ2VudF9pZCI6IjB4MTExMTExMTExMTExMTExMTExMTExMTExMTExMTExMTExMTExMTExMSIsImJhY2t1cF9pZCI6ImItMSIsImJhY2t1cF9zZXEiOjEsInRpbWVzdGFtcCI6MTcwMDAwMDAwMCwibWFuaWZlc3RfaGFzaCI6IjB4YWJjIiwiZmlsZXMiOnt9LCJ3cmFwcGVkX2tleXMiOnsicmVjb3ZlcnkiOiJyIiwicmVjYWxsIjoiYyJ9LCJzaWduYXR1cmUiOiIweHNpZyJ9''"

definition example_decodeHeader :: "string \<Rightarrow> json option" where
  "example_decodeHeader s =
     (if s = header_full_b64 then Some header_full
      else if s = header_short_b64 then Some header_short
      else None)"

definition example_verify :: "json \<Rightarrow> string \<Rightarrow> bool" where
  "example_verify h a = (get_prop (Some h) ''signature'' = Some (JStr ''0xsig''))"

text \<open>A verifier that accepts no signature.\<close>

definition example_verify_none :: "json \<Rightarrow> string \<Rightarrow> bool" where
  "example_verify_none h a = False"

definition example_isValidAddress :: "string \<Rightarrow> bool" where
  "example_isValidAddress s =
     (length s = 42 \<and> take 2 s = ''0x''
      \<and> list_all (\<lambda>c. c \<in> set ''0123456789abcdefABCDEF'') (drop 2 s))"

definition example_utils :: Utils where
  "example_utils =
     \<lparr>decodeHeader = example_decodeHeader, verifyBackupHeaderSignature = example_verify,
      isValidAddress = example_isValidAddress, normalizeAddress = toLowerCase\<rparr>"

definition example_config :: Config where
  "example_config =
     \<lparr>port = 3000, publicUrl = '''', jwtSecret = ''secret'', contractAddress = '''',
      chainId = 84532, backupSizeLimit = 5 * 1024 * 1024\<rparr>"

definition example_db :: SanctuaryDb where
  "example_db =
     \<lparr>users = [\<lparr>DbUser.github_id = ''42'', github_username = ''octo'',
                github_created_at = ''2020-01-01T00:00:00Z'', created_at = 1690000000\<rparr>],
      agents = [\<lparr>DbAgent.agent_id = example_agent_id, github_id = ''42'',
                 recovery_pubkey = ''0x00'', manifest_hash = ''0xabc'', manifest_version = 1,
                 registered_at = 1690000100, status = ''LIVING''\<rparr>],
      heartbeats = [], backups = [], trust_scores = [], attestation_notes = []\<rparr>"

definition example_request :: "string \<Rightarrow> UploadRequest" where
  "example_request line =
     \<lparr>UploadRequest.agentId = example_agent_id, x_backup_header = Some (Single line),
      body = Some [1, 2, 3]\<rparr>"

definition example_env :: "int \<Rightarrow> string \<Rightarrow> UploadEnv" where
  "example_env t uuid = \<lparr>now = t, uuid_tx = ''tx-'' @ uuid, uuid_backup = uuid, receivedAt = t\<rparr>"


text \<open>The database after one accepted upload, and the same agent marked fallen.\<close>

definition example_db1 :: SanctuaryDb where
  "example_db1 =
     snd (upload example_utils example_config (example_env 1700000000 ''u1'')
            (example_request header_full_b64) example_db)"

definition example_db_fallen :: SanctuaryDb where
  "example_db_fallen = updateAgentStatus example_agent_id ''FALLEN'' example_db"

text \<open>A database with the registered user and no agent yet, and a registration request.\<close>

definition example_db_user :: SanctuaryDb where
  "example_db_user = example_db\<lparr>agents := []\<rparr>"

definition example_key :: string where
  "example_key = ''0xaaaaaaaaaaaaaaaaaaaaaaaaaaaaaaaaaaaaaaaaaaaaaaaaaaaaaaaaaaaaaaaa''"

definition example_register :: "string \<Rightarrow> RegisterRequest" where
  "example_register supplied =
     \<lparr>jwt = Some \<lparr>type' = ''github'', githubId = Some ''42''\<rparr>,
      body = \<lparr>RegisterBody.agentId = Some supplied, recoveryPubKey = Some example_key,
              manifestHash = Some example_key, manifestVersion = Some 1\<rparr>\<rparr>"

definition other_agent_id :: string where
  "other_agent_id = ''0x2222222222222222222222222222222222222222''"

text \<open>
  An instance of the runtime for the examples: whole numbers print in decimal, the digest
  is the text itself and the keyed digest is the key before the text, so that different
  texts have different digests.
\<close>

definition digit_char :: "nat \<Rightarrow> char" where
  "digit_char n = ''0123456789'' ! (n mod 10)"

fun digits :: "nat \<Rightarrow> string" where
  "digits n = (if n < 10 then [digit_char n] else digits (n div 10) @ [digit_char n])"

declare digits.simps [simp del]

definition example_number_toString :: "real \<Rightarrow> string" where
  "example_number_toString x =
     (if x < 0 then CHR ''-'' # digits (nat \<lfloor>- x\<rfloor>) else digits (nat \<lfloor>x\<rfloor>))"

definition example_digest :: "string \<Rightarrow> string" where
  "example_digest s = s"

definition example_keyed_digest :: "string \<Rightarrow> string \<Rightarrow> string" where
  "example_keyed_digest k s = k @ '':'' @ s"

definition example_runtime :: Runtime where
  "example_runtime =
     \<lparr>sha256_hex = example_digest, hmac_sha256_hex = example_keyed_digest,
      number_toString = example_number_toString\<rparr>"

text \<open>The payload that the proof route builds for the example agent, and its numbers.\<close>

definition example_payload :: ProofPayload where
  "example_payload =
     \<lparr>ProofPayload.agent_id = example_agent_id, backup_count = 1, chain_id = 84532,
      contract_address = '''', issued_at = 1700000500, last_heartbeat = None,
      registered_at = 1690000100, status = ''LIVING'', trust_level = ''UNVERIFIED'',
      trust_score = 0\<rparr>"

definition example_numbers :: "real set" where
  "example_numbers = {0, 1, 100, 84532, 1690000100, 1700000500}"

definition example_proof :: IdentityProof where
  "example_proof = sign_payload example_runtime example_config example_agent_id example_payload"

section \<open>Facts about the database layer\<close>

lemma greatest_by_None: "greatest_by k xs = None \<longleftrightarrow> xs = []"
  by (induction xs) (auto split: option.splits)

lemma greatest_by_mem: "greatest_by k xs = Some y \<Longrightarrow> y \<in> set xs"
  by (induction xs arbitrary: y) (auto split: option.splits if_splits)

lemma greatest_by_ge: "greatest_by k xs = Some y \<Longrightarrow> x \<in> set xs \<Longrightarrow> k x \<le> k y"
proof (induction xs arbitrary: y)
  case Nil
  then show ?case by simp
next
  case (Cons a xs)
  show ?case
  proof (cases "greatest_by k xs")
    case None
    then have "xs = []" by (simp add: greatest_by_None)
    with Cons.prems None show ?thesis by simp
  next
    case (Some z)
    with Cons.prems(1) have y: "y = (if k a < k z then z else a)" by (simp split: if_splits)
    from Cons.prems(2) have "x = a \<or> x \<in> set xs" by simp
    then show ?thesis
    proof
      assume "x = a"
      with y show ?thesis by simp
    next
      assume "x \<in> set xs"
      with Cons.IH [OF Some] have "k x \<le> k z" by simp
      with y show ?thesis by simp
    qed
  qed
qed

lemma greatest_by_Max:
  assumes "greatest_by k xs = Some y"
  shows "k y = Max (set (map k xs))"
proof -
  have "Max (set (map k xs)) = k y"
  proof (rule Max_eqI)
    show "finite (set (map k xs))" by simp
    show "k y \<in> set (map k xs)" using greatest_by_mem [OF assms] by simp
    fix v assume "v \<in> set (map k xs)"
    then obtain x where "x \<in> set xs" "v = k x" by auto
    with greatest_by_ge [OF assms] show "v \<le> k y" by simp
  qed
  then show ?thesis by simp
qed

lemma last_upto_length:
  assumes "xs \<noteq> []" and "map k xs = [1..int (length xs)]"
  shows "k (last xs) = int (length xs)"
proof -
  have "k (last xs) = last (map k xs)" using assms(1) by (simp add: last_map)
  also have "\<dots> = int (length xs)"
    using assms by (cases xs rule: rev_cases) (auto simp: upto_rec2)
  finally show ?thesis .
qed

lemma greatest_by_last:
  assumes "xs \<noteq> []" and "map k xs = [1..int (length xs)]"
  shows "greatest_by k xs = Some (last xs)"
proof -
  from assms(1) obtain y where y: "greatest_by k xs = Some y"
    by (cases "greatest_by k xs") (auto simp: greatest_by_None)
  have mem: "y \<in> set xs" using y by (rule greatest_by_mem)
  have lmem: "last xs \<in> set xs" using assms(1) by simp
  then have ge: "k (last xs) \<le> k y" using y greatest_by_ge by metis
  have kl: "k (last xs) = int (length xs)" using assms by (rule last_upto_length)
  have "k y \<in> set (map k xs)" using mem by simp
  then have "k y \<le> int (length xs)" unfolding assms(2) by simp
  with ge kl have eq: "k y = k (last xs)" by simp
  have "distinct (map k xs)" unfolding assms(2) by simp
  then have "inj_on k (set xs)" by (simp add: distinct_map)
  with eq mem lmem have "y = last xs" by (auto dest: inj_onD)
  with y show ?thesis by simp
qed

lemma getNextBackupSeq_Max:
  "getNextBackupSeq db a = (if seqs_of db a = [] then 1 else Max (set (seqs_of db a)) + 1)"
proof (cases "getLatestBackup db a")
  case None
  then have "backups_of db a = []" by (simp add: getLatestBackup_def greatest_by_None)
  with None show ?thesis by (simp add: getNextBackupSeq_def seqs_of_def)
next
  case (Some y)
  then have g: "greatest_by DbBackup.backup_seq (backups_of db a) = Some y"
    by (simp add: getLatestBackup_def)
  then have "backups_of db a \<noteq> []" by auto
  with greatest_by_Max [OF g] Some show ?thesis
    by (simp add: getNextBackupSeq_def seqs_of_def)
qed

lemma getNextBackupSeq_count:
  assumes "seqs_of db a = [1..int (length (backups_of db a))]"
  shows "getNextBackupSeq db a = int (length (backups_of db a)) + 1"
proof (cases "backups_of db a = []")
  case True
  then show ?thesis by (simp add: getNextBackupSeq_def getLatestBackup_def)
next
  case False
  with assms have g: "getLatestBackup db a = Some (last (backups_of db a))"
    unfolding getLatestBackup_def seqs_of_def by (intro greatest_by_last) auto
  have "DbBackup.backup_seq (last (backups_of db a)) = int (length (backups_of db a))"
    using False assms unfolding seqs_of_def by (rule last_upto_length)
  then show ?thesis using g by (simp add: getNextBackupSeq_def)
qed

section \<open>Facts about the upload handler\<close>

text \<open>
  The nine fields the validator reads: a header that misses one of them, or holds a value
  of another type there, is refused by the validator, and the handler answers before it
  asks for the signature to be verified, whatever the verifier would say.
\<close>

lemma validateBackupHeader_checked_fields:
  assumes "js_typeof (get_prop (Some header) ''agent_id'') \<noteq> TString
         \<or> js_typeof (get_prop (Some header) ''backup_id'') \<noteq> TString
         \<or> js_typeof (get_prop (Some header) ''backup_seq'') \<noteq> TNumber
         \<or> js_typeof (get_prop (Some header) ''timestamp'') \<noteq> TNumber
         \<or> js_typeof (get_prop (Some header) ''manifest_hash'') \<noteq> TString
         \<or> js_typeof (get_prop (Some header) ''files'') \<noteq> TObject
         \<or> js_typeof (get_prop (get_prop (Some header) ''wrapped_keys'') ''recovery'') \<noteq> TString
         \<or> js_typeof (get_prop (get_prop (Some header) ''wrapped_keys'') ''recall'') \<noteq> TString
         \<or> js_typeof (get_prop (Some header) ''signature'') \<noteq> TString"
  shows "validateBackupHeader header \<noteq> None"
  using assms by (auto simp: validateBackupHeader_def Let_def)

lemma check_header_invalid_before_signature:
  assumes "validateBackupHeader header = Some msg"
      and "x_backup_header request = Some (Single line)" and "line \<noteq> []"
      and "decodeHeader u line = Some header"
  shows "check_header (u\<lparr>verifyBackupHeaderSignature := v\<rparr>) request = Inl (InvalidHeader msg)"
  using assms by (simp add: check_header_def)

lemma check_header_agent_id_string:
  "validateBackupHeader header = None \<Longrightarrow> \<exists>s. get_prop (Some header) ''agent_id'' = Some (JStr s)"
proof -
  assume v: "validateBackupHeader header = None"
  then have "js_typeof (get_prop (Some header) ''agent_id'') = TString"
    using validateBackupHeader_checked_fields [of header] by auto
  then show ?thesis
    by (cases "get_prop (Some header) ''agent_id''" rule: js_typeof.cases) auto
qed

lemma record_backup_rejected:
  "record_backup env aid h b db = (Rejected e, db') \<Longrightarrow> db' = db \<and> e = InsertFailed"
  by (auto simp: record_backup_def Let_def split: option.splits)

lemma upload_rejected_db:
  "upload u config env request db = (Rejected e, db') \<Longrightarrow> db' = db"
  by (auto simp: upload_def split: sum.splits option.splits dest: record_backup_rejected)

lemma record_backup_created:
  "record_backup env aid h b db = (Created d, db') \<Longrightarrow>
     backups db' = backups db @
       [\<lparr>DbBackup.id' = uuid_backup env, agent_id = aid,
         arweave_tx_id = ''simulated_'' @ uuid_tx env,
         backup_seq = getNextBackupSeq db aid,
         agent_timestamp = timestamp_or h (receivedAt env),
         received_at = receivedAt env, size_bytes = length b,
         manifest_hash = manifest_hash_or_empty h\<rparr>]
     \<and> UploadData.backup_seq d = getNextBackupSeq db aid
     \<and> UploadData.received_at d = receivedAt env
     \<and> agents db' = agents db"
  by (auto simp: record_backup_def Let_def createBackup_def split: option.splits if_splits)

lemma record_backup_fresh:
  assumes "uuid_backup env \<notin> set (map DbBackup.id' (backups db))"
      and "getAgent db aid = Some agent"
  shows "\<exists>d db'. record_backup env aid h b db = (Created d, db')
           \<and> UploadData.backup_seq d = getNextBackupSeq db aid"
proof -
  from assms(2) have "aid \<in> set (map DbAgent.agent_id (agents db))"
    by (auto simp: getAgent_def find_Some_iff)
  with assms(1) show ?thesis
    by (simp add: record_backup_def Let_def createBackup_def)
qed

lemma upload_created:
  assumes "upload u config env request db = (Created d, db')"
  shows "\<exists>h b agent. check_header u request = Inr h \<and> check_body config request = Inr b
      \<and> check_agent db (UploadRequest.agentId request) = Inr agent
      \<and> check_daily_limit db (UploadRequest.agentId request) (now env) = None
      \<and> record_backup env (UploadRequest.agentId request) h b db = (Created d, db')"
  using assms by (auto simp: upload_def split: sum.splits option.splits)

lemma check_agent_Inr:
  "check_agent db aid = Inr agent \<longleftrightarrow>
     getAgent db aid = Some agent
     \<and> (DbAgent.status agent = ''LIVING'' \<or> DbAgent.status agent = ''RETURNED'')"
  by (auto simp: check_agent_def split: option.splits)

lemma upload_passes:
  assumes "passes_earlier_checks u config request db"
  shows "\<exists>h b agent. check_header u request = Inr h \<and> check_body config request = Inr b
      \<and> check_agent db (UploadRequest.agentId request) = Inr agent
      \<and> upload u config env request db =
          (case check_daily_limit db (UploadRequest.agentId request) (now env) of
             Some e \<Rightarrow> (Rejected e, db)
           | None \<Rightarrow> record_backup env (UploadRequest.agentId request) h b db)"
proof -
  from assms obtain h b agent where
    "check_header u request = Inr h" "check_body config request = Inr b"
    "check_agent db (UploadRequest.agentId request) = Inr agent"
    unfolding passes_earlier_checks_def
    by (cases "check_header u request"; cases "check_body config request";
        cases "check_agent db (UploadRequest.agentId request)") auto
  then show ?thesis by (simp add: upload_def)
qed

lemma upload_step_backups:
  "snd (upload u config env request db) = db
   \<or> (\<exists>b. backups (snd (upload u config env request db)) = backups db @ [b]
          \<and> DbBackup.agent_id b = UploadRequest.agentId request
          \<and> DbBackup.backup_seq b = getNextBackupSeq db (UploadRequest.agentId request))"
proof (cases "upload u config env request db")
  case (Pair r db')
  show ?thesis
  proof (cases r)
    case (Rejected e)
    with Pair upload_rejected_db [of u config env request db e db'] show ?thesis by simp
  next
    case (Created d)
    with Pair upload_created [of u config env request db d db'] obtain h b where
      "record_backup env (UploadRequest.agentId request) h b db = (Created d, db')" by blast
    from record_backup_created [OF this] Pair Created show ?thesis by auto
  qed
qed

lemma reachable_seqs:
  "reachable db \<Longrightarrow> seqs_of db a = [1..int (length (backups_of db a))]"
proof (induction arbitrary: a rule: reachable.induct)
  case start
  show ?case by (simp add: seqs_of_def backups_of_def init_def)
next
  case (upload_step db u config env request)
  let ?db' = "snd (upload u config env request db)"
  from upload_step_backups [of u config env request db]
  show ?case
  proof
    assume "?db' = db"
    with upload_step.IH show ?thesis by simp
  next
    assume "\<exists>b. backups ?db' = backups db @ [b]
          \<and> DbBackup.agent_id b = UploadRequest.agentId request
          \<and> DbBackup.backup_seq b = getNextBackupSeq db (UploadRequest.agentId request)"
    then obtain b where b: "backups ?db' = backups db @ [b]"
      "DbBackup.agent_id b = UploadRequest.agentId request"
      "DbBackup.backup_seq b = getNextBackupSeq db (UploadRequest.agentId request)" by blast
    show ?thesis
    proof (cases "a = UploadRequest.agentId request")
      case True
      have n: "getNextBackupSeq db a = int (length (backups_of db a)) + 1"
        using upload_step.IH by (rule getNextBackupSeq_count)
      have "backups_of ?db' a = backups_of db a @ [b]"
        using b True by (simp add: backups_of_def)
      then show ?thesis using upload_step.IH [of a] b True n
        by (simp add: seqs_of_def upto_rec2)
    next
      case False
      then have "backups_of ?db' a = backups_of db a" using b by (simp add: backups_of_def)
      with upload_step.IH [of a] show ?thesis by (simp add: seqs_of_def)
    qed
  qed
next
  case (other_step db db')
  then show ?case by (simp add: seqs_of_def backups_of_def)
qed

lemma reachable_latest:
  assumes "reachable db" and "backups_of db a \<noteq> []"
  shows "getLatestBackup db a = Some (last (backups_of db a))"
  using assms reachable_seqs [OF assms(1), of a]
  unfolding getLatestBackup_def seqs_of_def by (intro greatest_by_last) auto

section \<open>Evaluating the examples\<close>

lemmas example_defs = example_agent_id_def header_full_def header_full_b64_def header_short_def
  header_short_b64_def example_decodeHeader_def example_verify_def example_isValidAddress_def
  example_utils_def example_config_def example_db_def example_request_def example_env_def

lemmas upload_defs = upload_def check_header_def check_body_def check_agent_def
  check_daily_limit_def record_backup_def validateBackupHeader_def getAgent_def
  getLatestBackup_def backups_of_def getNextBackupSeq_def createBackup_def timestamp_or_def
  manifest_hash_or_empty_def toLowerCase_def toLowerChar_def SECONDS_PER_DAY_def Let_def

lemma example_db_reachable: "reachable example_db"
  by (rule other_step [OF start]) (simp add: example_db_def init_def)

lemma example_db1_reachable: "reachable example_db1"
  unfolding example_db1_def by (rule upload_step [OF example_db_reachable])

lemma example_db1_eq:
  "example_db1 = example_db
     \<lparr>backups :=
        [\<lparr>DbBackup.id' = ''u1'', agent_id = example_agent_id,
          arweave_tx_id = ''simulated_tx-u1'', backup_seq = 1,
          agent_timestamp = 1700000000, received_at = 1700000000, size_bytes = 3,
          manifest_hash = ''0xabc''\<rparr>]\<rparr>"
  by (simp add: example_db1_def upload_defs example_defs)

section \<open>Claims about the upload handler\<close>

text \<open>
  C1. The claim: a decoded header that misses any required field of BackupHeader, or holds
  a value of the wrong type there, is rejected with a validation error before the signature
  is verified. The validator does not look at \<^verbatim>\<open>manifest_version\<close> and
  \<^verbatim>\<open>prev_backup_hash\<close>: the header below holds neither, the validator returns no error
  for it, and the handler goes on to the signature check.
\<close>

theorem validateBackupHeader_misses_fields:
  "validateBackupHeader header_short = None
   \<and> get_prop (Some header_short) ''manifest_version'' = None
   \<and> get_prop (Some header_short) ''prev_backup_hash'' = None"
  by (simp add: validateBackupHeader_def header_short_def example_agent_id_def Let_def)

theorem validateBackupHeader_misses_fields_witness:
  "check_header example_utils (example_request header_short_b64) = Inr header_short
   \<and> check_header (example_utils\<lparr>verifyBackupHeaderSignature := example_verify_none\<rparr>)
        (example_request header_short_b64) = Inl InvalidSignature"
proof -
  have v: "validateBackupHeader header_short = None"
    using validateBackupHeader_misses_fields by blast
  have a: "get_prop (Some header_short) ''agent_id'' = Some (JStr example_agent_id)"
    by (simp add: header_short_def)
  have s: "example_verify header_short example_agent_id"
    by (simp add: example_verify_def header_short_def)
  have d: "example_decodeHeader header_short_b64 = Some header_short"
    by (simp add: example_decodeHeader_def header_short_b64_def header_full_b64_def)
  have n: "header_short_b64 \<noteq> []" by (simp add: header_short_b64_def)
  from v a s d n show ?thesis
    by (simp add: check_header_def example_utils_def example_request_def example_verify_none_def)
qed

text \<open>
  C6. An upload is accepted only if the agent's row, read when the upload is accepted,
  has the status LIVING or RETURNED. When the agent is absent from the store or has any
  other status (FALLEN and UNREGISTERED among them), the upload fails with an error and
  the store is left as it was.
\<close>

theorem upload_requires_living_or_returned:
  "(upload u config env request db = (Created d, db') \<longrightarrow>
      (\<exists>agent. getAgent db (UploadRequest.agentId request) = Some agent
         \<and> (DbAgent.status agent = ''LIVING'' \<or> DbAgent.status agent = ''RETURNED'')))
   \<and> (getAgent db (UploadRequest.agentId request) = None
       \<or> (\<exists>agent. getAgent db (UploadRequest.agentId request) = Some agent
             \<and> DbAgent.status agent \<noteq> ''LIVING'' \<and> DbAgent.status agent \<noteq> ''RETURNED'')
       \<longrightarrow> (\<exists>e. upload u config env request db = (Rejected e, db)))"
proof (intro conjI impI)
  assume "upload u config env request db = (Created d, db')"
  with upload_created obtain agent where
    "check_agent db (UploadRequest.agentId request) = Inr agent" by blast
  then show "\<exists>agent. getAgent db (UploadRequest.agentId request) = Some agent
         \<and> (DbAgent.status agent = ''LIVING'' \<or> DbAgent.status agent = ''RETURNED'')"
    by (auto simp: check_agent_Inr)
next
  assume bad: "getAgent db (UploadRequest.agentId request) = None
       \<or> (\<exists>agent. getAgent db (UploadRequest.agentId request) = Some agent
             \<and> DbAgent.status agent \<noteq> ''LIVING'' \<and> DbAgent.status agent \<noteq> ''RETURNED'')"
  show "\<exists>e. upload u config env request db = (Rejected e, db)"
  proof (cases "upload u config env request db")
    case (Pair r db'')
    show ?thesis
    proof (cases r)
      case (Rejected e)
      with Pair upload_rejected_db show ?thesis by blast
    next
      case (Created d')
      with Pair upload_created obtain agent where
        "check_agent db (UploadRequest.agentId request) = Inr agent" by blast
      with bad show ?thesis by (auto simp: check_agent_Inr)
    qed
  qed
qed

theorem upload_requires_living_or_returned_witness:
  "upload example_utils example_config (example_env 1700000000 ''u1'')
     (example_request header_full_b64) example_db_fallen
   = (Rejected (AgentStatusForbidden ''FALLEN''), example_db_fallen)"
proof -
  let ?r = "example_request header_full_b64"
  have g: "getAgent example_db_fallen (UploadRequest.agentId ?r)
      = Some \<lparr>DbAgent.agent_id = example_agent_id, github_id = ''42'',
               recovery_pubkey = ''0x00'', manifest_hash = ''0xabc'', manifest_version = 1,
               registered_at = 1690000100, status = ''FALLEN''\<rparr>"
    by (simp add: example_db_fallen_def updateAgentStatus_def getAgent_def example_db_def
        example_request_def)
  then have "\<exists>e. upload example_utils example_config (example_env 1700000000 ''u1'') ?r
      example_db_fallen = (Rejected e, example_db_fallen)"
    using upload_requires_living_or_returned
      [of example_utils example_config "example_env 1700000000 ''u1''" ?r example_db_fallen]
    by simp
  then obtain e where e: "upload example_utils example_config (example_env 1700000000 ''u1'') ?r
      example_db_fallen = (Rejected e, example_db_fallen)" by blast
  have "fst (upload example_utils example_config (example_env 1700000000 ''u1'') ?r
      example_db_fallen) = Rejected (AgentStatusForbidden ''FALLEN'')"
    by (simp add: upload_defs example_defs example_db_fallen_def updateAgentStatus_def)
  with e show ?thesis by simp
qed

text \<open>
  C9. A rejected upload changes nothing: whatever the reason of the rejection, the store
  after the request is the store before it, so no backup record is created and every
  agent's backup count and latest backup (and its sequence number) are as before.
\<close>

theorem upload_rejected_leaves_store:
  assumes "fst (upload u config env request db) = Rejected e"
  shows "snd (upload u config env request db) = db
       \<and> backups (snd (upload u config env request db)) = backups db
       \<and> getBackupCount (snd (upload u config env request db)) a = getBackupCount db a
       \<and> getLatestBackup (snd (upload u config env request db)) a = getLatestBackup db a"
proof -
  from assms have "upload u config env request db
      = (Rejected e, snd (upload u config env request db))"
    by (metis prod.collapse)
  then have "snd (upload u config env request db) = db" by (rule upload_rejected_db)
  then show ?thesis by simp
qed

theorem upload_rejected_leaves_store_witness:
  "fst (upload example_utils example_config (example_env 1700003600 ''u2'')
          (example_request header_full_b64) example_db1) = Rejected (DailyLimit 23)
   \<and> snd (upload example_utils example_config (example_env 1700003600 ''u2'')
          (example_request header_full_b64) example_db1) = example_db1
   \<and> getBackupCount (snd (upload example_utils example_config (example_env 1700003600 ''u2'')
          (example_request header_full_b64) example_db1)) example_agent_id
       = getBackupCount example_db1 example_agent_id"
proof -
  have r: "fst (upload example_utils example_config (example_env 1700003600 ''u2'')
      (example_request header_full_b64) example_db1) = Rejected (DailyLimit 23)"
    by (simp add: example_db1_eq upload_defs example_defs)
  from upload_rejected_leaves_store [OF r, of example_agent_id] r show ?thesis by blast
qed

text \<open>
  C2. For an agent with at least one accepted backup, the limit is measured from the
  receipt time of the backup accepted last (the last row written for the agent), in
  seconds, whatever the calendar day. An attempt less than 86400 seconds after it is never
  accepted, and when it passes the earlier checks it is answered 429 with the remaining
  wait in hours, rounded up. An attempt 86400 seconds or more after it is never answered
  with the daily limit, and when it passes the earlier checks and its fresh identifier is
  unused it is accepted with the next sequence number.
\<close>

theorem daily_backup_limit:
  assumes "reachable db"
      and "backups_of db (UploadRequest.agentId request) \<noteq> []"
      and "last_accepted = last (backups_of db (UploadRequest.agentId request))"
      and "elapsed = now env - DbBackup.received_at last_accepted"
  shows "(elapsed < 86400 \<longrightarrow>
            (\<exists>e. upload u config env request db = (Rejected e, db))
            \<and> (passes_earlier_checks u config request db \<longrightarrow>
                 upload u config env request db
                 = (Rejected (DailyLimit \<lceil>real_of_int (86400 - elapsed) / 3600\<rceil>), db)))
       \<and> (86400 \<le> elapsed \<longrightarrow>
            (\<forall>n. fst (upload u config env request db) \<noteq> Rejected (DailyLimit n))
            \<and> (passes_earlier_checks u config request db
                 \<and> uuid_backup env \<notin> set (map DbBackup.id' (backups db)) \<longrightarrow>
                 (\<exists>d db'. upload u config env request db = (Created d, db')
                    \<and> UploadData.backup_seq d = DbBackup.backup_seq last_accepted + 1)))"
proof -
  let ?a = "UploadRequest.agentId request"
  have latest: "getLatestBackup db ?a = Some last_accepted"
    using assms(1,2,3) by (simp add: reachable_latest)
  have limit: "check_daily_limit db ?a (now env)
      = (if elapsed < 86400 then
           Some (DailyLimit \<lceil>real_of_int (86400 - elapsed) / 3600\<rceil>)
         else None)"
    using latest assms(4) by (simp add: check_daily_limit_def SECONDS_PER_DAY_def Let_def)
  show ?thesis
  proof (intro conjI impI allI)
    assume within: "elapsed < 86400"
    show "\<exists>e. upload u config env request db = (Rejected e, db)"
    proof (cases "upload u config env request db")
      case (Pair r db')
      show ?thesis
      proof (cases r)
        case (Rejected e)
        with Pair upload_rejected_db show ?thesis by blast
      next
        case (Created d)
        with Pair upload_created have "check_daily_limit db ?a (now env) = None" by blast
        with limit within show ?thesis by simp
      qed
    qed
  next
    assume within: "elapsed < 86400" and p: "passes_earlier_checks u config request db"
    from upload_passes [OF p, of env] limit within
    show "upload u config env request db
        = (Rejected (DailyLimit \<lceil>real_of_int (86400 - elapsed) / 3600\<rceil>), db)"
      by auto
  next
    fix n
    assume after: "86400 \<le> elapsed"
    show "fst (upload u config env request db) \<noteq> Rejected (DailyLimit n)"
    proof
      assume "fst (upload u config env request db) = Rejected (DailyLimit n)"
      moreover have "check_daily_limit db ?a (now env) = None" using limit after by simp
      ultimately show False
        by (auto simp: upload_def check_header_def check_body_def check_agent_def
            record_backup_def Let_def split: sum.splits option.splits if_splits
            header_value.splits json.splits)
    qed
  next
    assume after: "86400 \<le> elapsed"
      and p: "passes_earlier_checks u config request db
                \<and> uuid_backup env \<notin> set (map DbBackup.id' (backups db))"
    from upload_passes [of u config request db env] p obtain h b agent where
      ag: "check_agent db ?a = Inr agent" and
      up: "upload u config env request db = record_backup env ?a h b db"
      using limit after by auto
    from ag have "getAgent db ?a = Some agent" by (simp add: check_agent_Inr)
    from record_backup_fresh [OF _ this, of env h b] p obtain d db' where
      "record_backup env ?a h b db = (Created d, db')"
      "UploadData.backup_seq d = getNextBackupSeq db ?a" by blast
    with up latest
    show "\<exists>d db'. upload u config env request db = (Created d, db')
        \<and> UploadData.backup_seq d = DbBackup.backup_seq last_accepted + 1"
      by (simp add: getNextBackupSeq_def)
  qed
qed

theorem daily_backup_limit_witness:
  "upload example_utils example_config (example_env 1700003600 ''u2'')
     (example_request header_full_b64) example_db1
   = (Rejected (DailyLimit 23), example_db1)
   \<and> (\<exists>d db'. upload example_utils example_config (example_env 1700086400 ''u2'')
         (example_request header_full_b64) example_db1 = (Created d, db')
       \<and> UploadData.backup_seq d = 2)"
proof -
  let ?r = "example_request header_full_b64"
  have ne: "backups_of example_db1 (UploadRequest.agentId ?r) \<noteq> []"
    by (simp add: example_db1_eq backups_of_def example_defs)
  have rcv: "DbBackup.received_at (last (backups_of example_db1 (UploadRequest.agentId ?r)))
      = 1700000000"
    by (simp add: example_db1_eq backups_of_def example_defs)
  have sq: "DbBackup.backup_seq (last (backups_of example_db1 (UploadRequest.agentId ?r))) = 1"
    by (simp add: example_db1_eq backups_of_def example_defs)
  have p: "passes_earlier_checks example_utils example_config ?r example_db1"
    by (simp add: passes_earlier_checks_def example_db1_eq upload_defs example_defs)
  have fresh: "uuid_backup (example_env t ''u2'') \<notin> set (map DbBackup.id' (backups example_db1))"
    for t by (simp add: example_db1_eq example_defs)
  have e1: "now (example_env 1700003600 ''u2'') - 1700000000 = 3600"
    by (simp add: example_env_def)
  have e2: "now (example_env 1700086400 ''u2'') - 1700000000 = 86400"
    by (simp add: example_env_def)
  from daily_backup_limit [OF example_db1_reachable ne refl refl,
      of "example_env 1700003600 ''u2''" example_utils example_config] p
  have a: "upload example_utils example_config (example_env 1700003600 ''u2'') ?r example_db1
      = (Rejected (DailyLimit 23), example_db1)"
    unfolding rcv e1 by simp
  from daily_backup_limit [OF example_db1_reachable ne refl refl,
      of "example_env 1700086400 ''u2''" example_utils example_config] p fresh
  have b: "\<exists>d db'. upload example_utils example_config (example_env 1700086400 ''u2'') ?r
      example_db1 = (Created d, db') \<and> UploadData.backup_seq d = 2"
    unfolding rcv e2 sq by simp
  from a b show ?thesis by simp
qed

text \<open>
  C3. An accepted backup is stored with sequence number 1 when the agent has no backup
  yet, and with the greatest stored sequence number of the agent plus 1 otherwise. So in
  every state the server reaches, the sequence numbers of an agent's backups, in the order
  they were accepted, are 1, 2, ..., n: strictly increasing and without a gap.
\<close>

theorem backup_seq_sequence:
  "(upload u config env request db = (Created d, db') \<longrightarrow>
      UploadData.backup_seq d
        = (if seqs_of db (UploadRequest.agentId request) = [] then 1
           else Max (set (seqs_of db (UploadRequest.agentId request))) + 1)
      \<and> seqs_of db' (UploadRequest.agentId request)
        = seqs_of db (UploadRequest.agentId request) @ [UploadData.backup_seq d])
   \<and> (reachable db \<longrightarrow> seqs_of db a = [1..int (getBackupCount db a)])"
proof -
  have first: "UploadData.backup_seq d
        = (if seqs_of db (UploadRequest.agentId request) = [] then 1
           else Max (set (seqs_of db (UploadRequest.agentId request))) + 1)
      \<and> seqs_of db' (UploadRequest.agentId request)
        = seqs_of db (UploadRequest.agentId request) @ [UploadData.backup_seq d]"
    if up: "upload u config env request db = (Created d, db')"
  proof -
    from up upload_created obtain h b where
      "record_backup env (UploadRequest.agentId request) h b db = (Created d, db')" by blast
    from record_backup_created [OF this]
    have n: "UploadData.backup_seq d = getNextBackupSeq db (UploadRequest.agentId request)"
      and s: "seqs_of db' (UploadRequest.agentId request)
          = seqs_of db (UploadRequest.agentId request) @ [UploadData.backup_seq d]"
      by (simp_all add: seqs_of_def backups_of_def)
    from n have "UploadData.backup_seq d
          = (if seqs_of db (UploadRequest.agentId request) = [] then 1
             else Max (set (seqs_of db (UploadRequest.agentId request))) + 1)"
      by (simp only: getNextBackupSeq_Max)
    with s show ?thesis by blast
  qed
  have second: "seqs_of db a = [1..int (getBackupCount db a)]" if "reachable db"
    using that by (simp add: reachable_seqs getBackupCount_def)
  from first second show ?thesis by blast
qed

theorem backup_seq_sequence_witness:
  "seqs_of example_db1 example_agent_id = [1]
   \<and> (\<exists>d db'. upload example_utils example_config (example_env 1700086400 ''u2'')
         (example_request header_full_b64) example_db1 = (Created d, db')
       \<and> UploadData.backup_seq d = 2 \<and> seqs_of db' example_agent_id = [1, 2])"
proof -
  let ?r = "example_request header_full_b64"
  let ?e = "example_env 1700086400 ''u2''"
  have c: "getBackupCount example_db1 example_agent_id = 1"
    by (simp add: example_db1_eq getBackupCount_def backups_of_def example_defs)
  from backup_seq_sequence [of example_utils example_config ?e ?r example_db1 _ _ example_agent_id]
    example_db1_reachable c
  have s: "seqs_of example_db1 example_agent_id = [1]" by (simp add: upto.simps)
  obtain d db' where up: "upload example_utils example_config ?e ?r example_db1 = (Created d, db')"
    by (simp add: example_db1_eq upload_defs example_defs)
  have a: "UploadRequest.agentId ?r = example_agent_id" by (simp add: example_request_def)
  from backup_seq_sequence [of example_utils example_config ?e ?r example_db1 d db' example_agent_id]
    up s a
  have "UploadData.backup_seq d = 2 \<and> seqs_of db' example_agent_id = [1, 2]" by simp
  with up s show ?thesis by blast
qed

section \<open>Claims about the other routes and the store\<close>

text \<open>
  C5. The claim: the stored agentId is a pure function of the agent's public signing key
  and is never chosen by the caller. The registration handler receives no signing key and
  no signature: it stores the normalised form of the \<^verbatim>\<open>agentId\<close> the caller sends. The
  same GitHub user, with the same recovery key and manifest, registers whichever of two
  addresses the request names.
\<close>

theorem register_caller_chooses_id:
  "map DbAgent.agent_id
     (agents (snd (register example_utils 1690000100 (example_register example_agent_id)
                     example_db_user)))
   = [example_agent_id]
   \<and> map DbAgent.agent_id
     (agents (snd (register example_utils 1690000100 (example_register other_agent_id)
                     example_db_user)))
   = [other_agent_id]
   \<and> example_agent_id \<noteq> other_agent_id"
  by (simp add: register_def example_register_def example_db_user_def example_db_def
      example_utils_def example_isValidAddress_def example_agent_id_def other_agent_id_def
      example_key_def is_0x_hex64_def absent_def getAgent_def getAgentByGithubId_def
      getUser_def createAgent_def toLowerCase_def toLowerChar_def Let_def)

text \<open>
  C5, amended. A successful registration stores exactly one new agent, and its agentId is
  the normalised form of the agentId the caller supplied, which is a valid address that
  was not registered before. So the stored agentId is a function of the supplied agentId
  alone: two registrations that supply the same agentId store the same one.
\<close>

theorem register_stores_supplied_id:
  assumes "register u now_s request db = (Sent code data, db')"
  shows "\<exists>supplied agent.
           RegisterBody.agentId (RegisterRequest.body request) = Some supplied
           \<and> isValidAddress u supplied
           \<and> getAgent db (normalizeAddress u supplied) = None
           \<and> agents db' = agents db @ [agent]
           \<and> DbAgent.agent_id agent = normalizeAddress u supplied
           \<and> code = 201"
proof -
  from assms obtain supplied where
    s: "RegisterBody.agentId (RegisterRequest.body request) = Some supplied"
    by (cases "RegisterBody.agentId (RegisterRequest.body request)")
       (auto simp: register_def absent_def Let_def split: option.splits if_splits)
  from assms s show ?thesis
    by (auto simp: register_def absent_def Let_def createAgent_def
        split: option.splits if_splits)
qed

theorem register_stores_supplied_id_witness:
  "\<exists>agent. agents (snd (register example_utils 1690000100 (example_register other_agent_id)
                          example_db_user)) = [agent]
     \<and> DbAgent.agent_id agent = other_agent_id"
proof -
  let ?r = "example_register other_agent_id"
  have "\<exists>data db'. register example_utils 1690000100 ?r example_db_user
      = (Sent 201 data, db')"
    by (simp add: register_def example_register_def example_db_user_def example_db_def
      example_utils_def example_isValidAddress_def example_agent_id_def other_agent_id_def
      example_key_def is_0x_hex64_def absent_def getAgent_def getAgentByGithubId_def
      getUser_def createAgent_def toLowerCase_def toLowerChar_def Let_def)
  then obtain data db' where r: "register example_utils 1690000100 ?r example_db_user
      = (Sent 201 data, db')" by blast
  have a: "RegisterBody.agentId (RegisterRequest.body ?r) = Some other_agent_id"
    by (simp add: example_register_def)
  have n: "normalizeAddress example_utils other_agent_id = other_agent_id"
    by (simp add: example_utils_def other_agent_id_def toLowerCase_def toLowerChar_def)
  have e: "agents example_db_user = []" by (simp add: example_db_user_def)
  from register_stores_supplied_id [OF r] a n e r show ?thesis by auto
qed

text \<open>
  C7. The level is a step function of the score: below 20 UNVERIFIED, from 20 and below
  50 VERIFIED, from 50 and below 100 ESTABLISHED, from 100 PILLAR.
\<close>

theorem trustLevel_steps:
  "(s < 20 \<longrightarrow> trustLevel s = UNVERIFIED)
   \<and> (20 \<le> s \<and> s < 50 \<longrightarrow> trustLevel s = VERIFIED)
   \<and> (50 \<le> s \<and> s < 100 \<longrightarrow> trustLevel s = ESTABLISHED)
   \<and> (100 \<le> s \<longrightarrow> trustLevel s = PILLAR)"
  by (simp add: trustLevel_def)

theorem trustLevel_steps_witness:
  "trustLevel 19.5 = UNVERIFIED \<and> trustLevel 20 = VERIFIED \<and> trustLevel 37 = VERIFIED
   \<and> trustLevel 50 = ESTABLISHED \<and> trustLevel 99 = ESTABLISHED \<and> trustLevel 100 = PILLAR"
  using trustLevel_steps [of "19.5"] trustLevel_steps [of 20] trustLevel_steps [of 37]
    trustLevel_steps [of 50] trustLevel_steps [of 99] trustLevel_steps [of 100]
  by simp

text \<open>
  C8. Storing a note is idempotent under its hash. A second insert of the note, or of any
  note with the same hash, leaves the store as the first insert left it; an insert under
  another hash does not touch what is stored under this one; and a get by the hash returns
  the note stored first under it.
\<close>

theorem createAttestationNote_idempotent:
  "createAttestationNote note (createAttestationNote note db) = createAttestationNote note db
   \<and> (hash note' = hash note \<longrightarrow>
        createAttestationNote note' (createAttestationNote note db)
        = createAttestationNote note db)
   \<and> (hash note' \<noteq> hash note \<longrightarrow>
        getAttestationNote (createAttestationNote note' db) (hash note)
        = getAttestationNote db (hash note))
   \<and> getAttestationNote (createAttestationNote note db) (hash note)
      = (case getAttestationNote db (hash note) of None \<Rightarrow> Some note | Some old \<Rightarrow> Some old)"
proof -
  have f: "find P (xs @ [x]) = (case find P xs of None \<Rightarrow> if P x then Some x else None
                                | Some y \<Rightarrow> Some y)" for P :: "'a \<Rightarrow> bool" and xs x
    by (induction xs) auto
  have g: "find (\<lambda>n. hash n = h) xs = None \<longleftrightarrow> h \<notin> set (map hash xs)"
    for h and xs :: "DbAttestationNote list"
    by (induction xs) auto
  have same: "createAttestationNote n' (createAttestationNote note db)
      = createAttestationNote note db" if "hash n' = hash note" for n'
    using that by (simp add: createAttestationNote_def)
  have other: "getAttestationNote (createAttestationNote note' db) (hash note)
        = getAttestationNote db (hash note)" if "hash note' \<noteq> hash note"
    using that by (simp add: createAttestationNote_def getAttestationNote_def f split: option.splits)
  have got: "getAttestationNote (createAttestationNote note db) (hash note)
      = (case getAttestationNote db (hash note) of None \<Rightarrow> Some note | Some old \<Rightarrow> Some old)"
    using g [of "hash note" "attestation_notes db"]
    by (auto simp: createAttestationNote_def getAttestationNote_def f split: option.splits)
  from same [of "note"] same [of note'] other got show ?thesis by blast
qed

theorem createAttestationNote_idempotent_witness:
  "getAttestationNote
     (createAttestationNote \<lparr>hash = ''h1'', content = ''changed'', created_at = 2\<rparr>
        (createAttestationNote \<lparr>hash = ''h1'', content = ''first'', created_at = 1\<rparr> init))
     ''h1''
   = Some \<lparr>hash = ''h1'', content = ''first'', created_at = 1\<rparr>"
proof -
  let ?n = "\<lparr>hash = ''h1'', content = ''first'', created_at = 1\<rparr>"
  let ?m = "\<lparr>hash = ''h1'', content = ''changed'', created_at = 2\<rparr>"
  have e: "getAttestationNote init ''h1'' = None"
    by (simp add: getAttestationNote_def init_def)
  from createAttestationNote_idempotent [of ?n init ?m] e show ?thesis by simp
qed

text \<open>
  C10. The claim: a request to list backups, fetch the latest backup or generate a proof
  for an agentId other than the caller's fails with an authorization error. Each handler
  first checks that the requested id is an address, and answers 400 when it is not: a
  request for a string that is no address is refused as invalid, not as unauthorized.
\<close>

theorem foreign_request_invalid_id:
  "''not-an-address'' \<noteq> example_agent_id
   \<and> listBackups example_utils example_db1 example_agent_id ''not-an-address'' None
     = Failed 400 ''Invalid agent ID''
   \<and> latestBackup example_utils example_db1 example_agent_id ''not-an-address''
     = Failed 400 ''Invalid agent ID''
   \<and> generateProof example_utils example_runtime example_config example_db1 1700000000
       example_agent_id ''not-an-address''
     = Failed 400 ''Invalid agent ID''"
  by (simp add: listBackups_def latestBackup_def generateProof_def example_utils_def
      example_isValidAddress_def example_agent_id_def)

text \<open>
  C10, amended. When the requested agentId, once normalised, differs from the caller's
  identity (compared without regard to letter case by the two backup routes, exactly by
  the proof route), the request returns no backup and no proof: it fails with 400 when the
  requested id is not a valid address, and with the authorization error 403 otherwise.
\<close>

theorem foreign_request_refused:
  "(toLowerCase (normalizeAddress u requested) \<noteq> toLowerCase caller \<longrightarrow>
      listBackups u db caller requested limit
      = (if isValidAddress u requested then Failed 403 ''Cannot list backups for another agent''
         else Failed 400 ''Invalid agent ID'')
      \<and> latestBackup u db caller requested
      = (if isValidAddress u requested then Failed 403 ''Cannot view backups for another agent''
         else Failed 400 ''Invalid agent ID''))
   \<and> (normalizeAddress u requested \<noteq> caller \<longrightarrow>
        generateProof u rt config db now_s caller requested
        = (if isValidAddress u requested then
             Failed 403 ''Can only generate proof for your own agent''
           else Failed 400 ''Invalid agent ID''))"
  by (simp add: listBackups_def latestBackup_def generateProof_def Let_def)

theorem foreign_request_refused_witness:
  "listBackups example_utils example_db1 other_agent_id example_agent_id None
     = Failed 403 ''Cannot list backups for another agent''
   \<and> latestBackup example_utils example_db1 other_agent_id example_agent_id
     = Failed 403 ''Cannot view backups for another agent''
   \<and> generateProof example_utils example_runtime example_config example_db1 1700000000
       other_agent_id example_agent_id
     = Failed 403 ''Can only generate proof for your own agent''"
proof -
  have n: "normalizeAddress example_utils example_agent_id = example_agent_id"
    by (simp add: example_utils_def example_agent_id_def toLowerCase_def toLowerChar_def)
  have d: "toLowerCase example_agent_id \<noteq> toLowerCase other_agent_id"
    by (simp add: example_agent_id_def other_agent_id_def toLowerCase_def toLowerChar_def)
  have d': "example_agent_id \<noteq> other_agent_id"
    by (simp add: example_agent_id_def other_agent_id_def)
  have v: "isValidAddress example_utils example_agent_id"
    by (simp add: example_utils_def example_isValidAddress_def example_agent_id_def)
  from foreign_request_refused [of example_utils example_agent_id other_agent_id example_db1
      None example_runtime example_config 1700000000] n d d' v
  show ?thesis by simp
qed

section \<open>Facts about JSON.stringify\<close>

lemma hex_value_hex_digit: "hex_value (hex_digit n) = n mod 16"
proof -
  have "\<forall>k\<in>{..<16::nat}. hex_value (''0123456789abcdef'' ! k) = k"
    by (simp add: lessThan_nat_numeral lessThan_Suc hex_value_def)
  moreover have "n mod 16 \<in> {..<16}" by simp
  ultimately show ?thesis unfolding hex_digit_def by blast
qed

lemma unescape_escape_char: "unescape (escape_char c) = c"
proof (cases "(of_char c :: nat) < 32")
  case True
  then have d: "(of_char c :: nat) div 16 mod 16 = of_char c div 16" by simp
  have "char_of (16 * ((of_char c :: nat) div 16) + of_char c mod 16) = c" by simp
  with d show ?thesis by (simp add: escape_char_def hex_value_hex_digit)
next
  case False
  then show ?thesis by (simp add: escape_char_def)
qed

lemma escape_char_shape:
  "(escape_char c = [c] \<and> c \<noteq> CHR 0x5C \<and> c \<noteq> CHR 0x22)
   \<or> (\<exists>x. escape_char c = [CHR 0x5C, x] \<and> x \<noteq> CHR ''u'')
   \<or> (\<exists>h l. escape_char c = [CHR 0x5C, CHR ''u'', CHR ''0'', CHR ''0'', h, l])"
  by (simp add: escape_char_def)

lemma escape_char_prefix:
  assumes "escape_char c @ r = escape_char c' @ r'"
  shows "c = c' \<and> r = r'"
proof -
  from assms escape_char_shape [of c] escape_char_shape [of c']
  have e: "escape_char c = escape_char c' \<and> r = r'"
    by (elim disjE exE conjE) auto
  then have "unescape (escape_char c) = unescape (escape_char c')" by simp
  then have "c = c'" unfolding unescape_escape_char .
  with e show ?thesis by simp
qed

lemma escape_char_no_quote: "escape_char c @ r \<noteq> CHR 0x22 # r'"
  using escape_char_shape [of c] by (elim disjE exE conjE) auto

lemma escaped_prefix:
  "concat (map escape_char s) @ CHR 0x22 # r = concat (map escape_char s') @ CHR 0x22 # r'
   \<Longrightarrow> s = s' \<and> r = r'"
proof (induction s arbitrary: s')
  case Nil
  show ?case
  proof (cases s')
    case Nil
    with Nil.prems show ?thesis by simp
  next
    case (Cons c' t')
    with Nil.prems have
      "escape_char c' @ (concat (map escape_char t') @ CHR 0x22 # r') = CHR 0x22 # r" by simp
    with escape_char_no_quote show ?thesis by blast
  qed
next
  case (Cons c t)
  show ?case
  proof (cases s')
    case Nil
    with Cons.prems have
      "escape_char c @ (concat (map escape_char t) @ CHR 0x22 # r) = CHR 0x22 # r'" by simp
    with escape_char_no_quote show ?thesis by blast
  next
    case (Cons c' t')
    with Cons.prems have
      "escape_char c @ (concat (map escape_char t) @ CHR 0x22 # r)
       = escape_char c' @ (concat (map escape_char t') @ CHR 0x22 # r')" by simp
    then have "c = c'"
      and "concat (map escape_char t) @ CHR 0x22 # r = concat (map escape_char t') @ CHR 0x22 # r'"
      using escape_char_prefix by blast+
    with Cons.IH [of t'] Cons show ?thesis by simp
  qed
qed

lemma quote_prefix: "quote s @ r = quote s' @ r' \<Longrightarrow> s = s' \<and> r = r'"
  using escaped_prefix [of s r s' r'] by (simp add: quote_def)

lemma separator_split:
  "c \<notin> set a \<Longrightarrow> c \<notin> set b \<Longrightarrow> a @ c # r = b @ c # r' \<Longrightarrow> a = b \<and> r = r'"
proof (induction a arbitrary: b)
  case Nil
  then show ?case by (cases b) auto
next
  case (Cons x a)
  then show ?case by (cases b) auto
qed

lemma number_no_comma:
  assumes "prints_injectively fmt N" and "x \<in> N"
  shows "CHR '','' \<notin> set (fmt x)" and "CHR ''n'' \<notin> set (fmt x)" and "CHR 0x22 \<notin> set (fmt x)"
  using assms by (auto simp: prints_injectively_def number_chars_def)

lemma primitive_separated:
  assumes fmt: "prints_injectively fmt N"
      and v: "primitive N v" and v': "primitive N v'"
      and eq: "stringify fmt v @ CHR '','' # r = stringify fmt v' @ CHR '','' # r'"
  shows "v = v' \<and> r = r'"
proof -
  have num_num: "x = y \<and> r = r'"
    if "x \<in> N" "y \<in> N" "fmt x @ CHR '','' # r = fmt y @ CHR '','' # r'" for x y
  proof -
    from separator_split [OF number_no_comma(1) [OF fmt that(1)]
        number_no_comma(1) [OF fmt that(2)] that(3)]
    have "fmt x = fmt y" "r = r'" by simp_all
    with fmt that(1,2) show ?thesis by (auto simp: prints_injectively_def dest: inj_onD)
  qed
  have num_null: False if "x \<in> N" "fmt x @ CHR '','' # r1 = ''null'' @ CHR '','' # r2" for x r1 r2
  proof -
    from separator_split [OF number_no_comma(1) [OF fmt that(1)] _ that(2)]
    have "fmt x = ''null''" by simp
    with number_no_comma(2) [OF fmt that(1)] show False by simp
  qed
  have num_str: False if "x \<in> N" "fmt x @ CHR '','' # r1 = quote s @ r2" for x s r1 r2
  proof (cases "fmt x")
    case Nil
    with that(2) show False by (simp add: quote_def)
  next
    case (Cons a as)
    with that(2) have "a = CHR 0x22" by (simp add: quote_def)
    with Cons number_no_comma(3) [OF fmt that(1)] show False by simp
  qed
  have str_str: "s = t \<and> r = r'"
    if "quote s @ CHR '','' # r = quote t @ CHR '','' # r'" for s t
    using quote_prefix [OF that] by simp
  have null_str: False if "''null'' @ CHR '','' # r1 = quote s @ r2" for s r1 r2
    using that by (simp add: quote_def)
  consider (null) "v = JNull" | (num) x where "v = JNum x" "x \<in> N" | (str) s where "v = JStr s"
    using v by (cases v) simp_all
  then show ?thesis
  proof cases
    case null
    consider (null') "v' = JNull" | (num') y where "v' = JNum y" "y \<in> N"
      | (str') t where "v' = JStr t"
      using v' by (cases v') simp_all
    then show ?thesis
    proof cases
      case null'
      with null eq show ?thesis by simp
    next
      case num'
      with null eq have "fmt y @ CHR '','' # r' = ''null'' @ CHR '','' # r" by simp
      with num_null [OF num'(2)] show ?thesis by blast
    next
      case str'
      with null eq have "''null'' @ CHR '','' # r = quote t @ CHR '','' # r'" by simp
      with null_str show ?thesis by blast
    qed
  next
    case num
    consider (null') "v' = JNull" | (num') y where "v' = JNum y" "y \<in> N"
      | (str') t where "v' = JStr t"
      using v' by (cases v') simp_all
    then show ?thesis
    proof cases
      case null'
      with num eq have "fmt x @ CHR '','' # r = ''null'' @ CHR '','' # r'" by simp
      with num_null [OF num(2)] show ?thesis by blast
    next
      case num'
      with num eq have "fmt x @ CHR '','' # r = fmt y @ CHR '','' # r'" by simp
      from num_num [OF num(2) num'(2) this] num num' show ?thesis by simp
    next
      case str'
      with num eq have "fmt x @ CHR '','' # r = quote t @ CHR '','' # r'" by simp
      with num_str [OF num(2)] show ?thesis by blast
    qed
  next
    case str
    consider (null') "v' = JNull" | (num') y where "v' = JNum y" "y \<in> N"
      | (str') t where "v' = JStr t"
      using v' by (cases v') simp_all
    then show ?thesis
    proof cases
      case null'
      with str eq have "''null'' @ CHR '','' # r' = quote s @ CHR '','' # r" by simp
      with null_str show ?thesis by blast
    next
      case num'
      with str eq have "fmt y @ CHR '','' # r' = quote s @ CHR '','' # r" by simp
      with num_str [OF num'(2)] show ?thesis by blast
    next
      case str'
      with str eq have "quote s @ CHR '','' # r = quote t @ CHR '','' # r'" by simp
      from str_str [OF this] str str' show ?thesis by simp
    qed
  qed
qed

lemma primitive_inj:
  assumes "prints_injectively fmt N" and "primitive N v" and "primitive N v'"
      and "stringify fmt v = stringify fmt v'"
  shows "v = v'"
  using primitive_separated [OF assms(1,2,3), of "[]" "[]"] assms(4) by simp

lemma stringify_members_inj:
  assumes fmt: "prints_injectively fmt N"
  shows "map fst kvs = map fst kvs' \<Longrightarrow> list_all (\<lambda>kv. primitive N (snd kv)) kvs
     \<Longrightarrow> list_all (\<lambda>kv. primitive N (snd kv)) kvs'
     \<Longrightarrow> stringify_members fmt kvs = stringify_members fmt kvs' \<Longrightarrow> kvs = kvs'"
proof (induction kvs arbitrary: kvs')
  case Nil
  then show ?case by simp
next
  case (Cons kv kvs)
  from Cons.prems(1) obtain kv' kvs1 where k': "kvs' = kv' # kvs1" by (cases kvs') auto
  obtain k v where kv: "kv = (k, v)" by (cases kv)
  from Cons.prems(1) k' kv obtain v' where kv': "kv' = (k, v')" by (cases kv') auto
  from Cons.prems(1) k' have keys: "map fst kvs = map fst kvs1" by simp
  from Cons.prems(2,3) k' kv kv' have p: "primitive N v" "primitive N v'"
    and ps: "list_all (\<lambda>kv. primitive N (snd kv)) kvs" "list_all (\<lambda>kv. primitive N (snd kv)) kvs1"
    by simp_all
  show ?case
  proof (cases kvs)
    case Nil
    with keys have "kvs1 = []" by simp
    with Nil Cons.prems(4) k' kv kv' have "stringify fmt v = stringify fmt v'" by simp
    with primitive_inj [OF fmt p] Nil \<open>kvs1 = []\<close> k' kv kv' show ?thesis by simp
  next
    case (Cons m ms)
    with keys obtain m' ms' where m': "kvs1 = m' # ms'" by (cases kvs1) auto
    obtain mk mv where m: "m = (mk, mv)" by (cases m)
    obtain mk' mv' where mm: "m' = (mk', mv')" by (cases m')
    from Cons.prems(4) k' kv kv' Cons m' m mm
    have "stringify fmt v @ CHR '','' # stringify_members fmt kvs
        = stringify fmt v' @ CHR '','' # stringify_members fmt kvs1" by simp
    from primitive_separated [OF fmt p this]
    have "v = v'" "stringify_members fmt kvs = stringify_members fmt kvs1" by simp_all
    with Cons.IH [OF keys ps] k' kv kv' show ?thesis by simp
  qed
qed

lemma payload_json_inj: "payload_json p = payload_json p' \<Longrightarrow> p = p'"
  by (cases p; cases p') (auto simp: payload_json_def split: option.splits)

lemma stringify_payload_inj:
  assumes fmt: "prints_injectively fmt N"
      and n: "payload_numbers p \<subseteq> N" and n': "payload_numbers p' \<subseteq> N"
      and eq: "stringify fmt (payload_json p) = stringify fmt (payload_json p')"
  shows "p = p'"
proof -
  obtain kvs where kvs: "payload_json p = JObj kvs"
    and keys: "map fst kvs = [''agent_id'', ''backup_count'', ''chain_id'', ''contract_address'',
        ''issued_at'', ''last_heartbeat'', ''registered_at'', ''status'', ''trust_level'',
        ''trust_score'']"
    and prim: "list_all (\<lambda>kv. primitive N (snd kv)) kvs"
    using n by (auto simp: payload_json_def payload_numbers_def split: option.splits)
  obtain kvs' where kvs': "payload_json p' = JObj kvs'"
    and keys': "map fst kvs' = [''agent_id'', ''backup_count'', ''chain_id'', ''contract_address'',
        ''issued_at'', ''last_heartbeat'', ''registered_at'', ''status'', ''trust_level'',
        ''trust_score'']"
    and prim': "list_all (\<lambda>kv. primitive N (snd kv)) kvs'"
    using n' by (auto simp: payload_json_def payload_numbers_def split: option.splits)
  from eq kvs kvs' have "stringify_members fmt kvs = stringify_members fmt kvs'" by simp
  from stringify_members_inj [OF fmt _ prim prim' this] keys keys' have "kvs = kvs'" by simp
  with kvs kvs' show ?thesis by (simp add: payload_json_inj)
qed

lemma example_prints:
  "example_number_toString 0 = ''0''"
  "example_number_toString 1 = ''1''"
  "example_number_toString 100 = ''100''"
  "example_number_toString 84532 = ''84532''"
  "example_number_toString 1690000100 = ''1690000100''"
  "example_number_toString 1700000500 = ''1700000500''"
  by (simp_all add: example_number_toString_def digits.simps digit_char_def)

lemma example_prints_injectively: "prints_injectively example_number_toString example_numbers"
  by (simp add: prints_injectively_def example_numbers_def example_prints number_chars_def)

lemma example_agent_row:
  "getAgent example_db1 example_agent_id
   = Some \<lparr>DbAgent.agent_id = example_agent_id, github_id = ''42'',
            recovery_pubkey = ''0x00'', manifest_hash = ''0xabc'', manifest_version = 1,
            registered_at = 1690000100, status = ''LIVING''\<rparr>"
  by (simp add: example_db1_eq example_db_def getAgent_def)

lemma example_build_payload:
  "build_payload example_config example_db1
     \<lparr>DbAgent.agent_id = example_agent_id, github_id = ''42'',
       recovery_pubkey = ''0x00'', manifest_hash = ''0xabc'', manifest_version = 1,
       registered_at = 1690000100, status = ''LIVING''\<rparr> example_agent_id 1700000500
   = example_payload"
  by (simp add: build_payload_def example_payload_def example_db1_eq example_db_def
      example_config_def getTrustScore_def getLatestHeartbeat_def getBackupCount_def
      backups_of_def)

lemma example_generateProof:
  "generateProof example_utils example_runtime example_config example_db1 1700000500
     example_agent_id example_agent_id = Sent 200 example_proof"
proof -
  have n: "normalizeAddress example_utils example_agent_id = example_agent_id"
    by (simp add: example_utils_def example_agent_id_def toLowerCase_def toLowerChar_def)
  have v: "isValidAddress example_utils example_agent_id"
    by (simp add: example_utils_def example_isValidAddress_def example_agent_id_def)
  from n v show ?thesis
    by (simp add: generateProof_def example_agent_row example_build_payload example_proof_def)
qed

section \<open>The claim about identity proofs\<close>

text \<open>
  C4. A generated proof carries the payload built from the server's records, an object with
  exactly the ten keys agent_id, backup_count, chain_id, contract_address, issued_at,
  last_heartbeat, registered_at, status, trust_level, trust_score, in alphabetical order;
  its proof_hash is the SHA-256 digest of the JSON serialisation of that payload; its
  server_signature is the HMAC-SHA256 of that digest under the server's secret. So the
  unmodified proof verifies. A proof whose payload was changed and whose hash and
  signature were kept verifies only if the two serialisations collide under SHA-256:
  with a digest that has no collision, verification fails. (The numbers of both payloads
  are taken from a set on which printing is injective, as it is on the finite numbers of
  JavaScript.)
\<close>

theorem identity_proof:
  assumes "generateProof u rt config db now_s caller requested = Sent code pr"
  shows "(\<exists>agent. getAgent db caller = Some agent
            \<and> payload pr = build_payload config db agent caller now_s)
       \<and> (\<exists>kvs. payload_json (payload pr) = JObj kvs
            \<and> map fst kvs = [''agent_id'', ''backup_count'', ''chain_id'', ''contract_address'',
                 ''issued_at'', ''last_heartbeat'', ''registered_at'', ''status'',
                 ''trust_level'', ''trust_score'']
            \<and> sorted (map fst kvs))
       \<and> proof_hash pr
          = sha256_hex rt (stringify (number_toString rt) (payload_json (payload pr)))
       \<and> server_signature pr = hmac_sha256_hex rt (jwtSecret config) (proof_hash pr)
       \<and> verify_proof rt (jwtSecret config) pr
       \<and> (prints_injectively (number_toString rt) N \<and> payload_numbers (payload pr) \<subseteq> N
            \<and> payload_numbers p' \<subseteq> N \<and> p' \<noteq> payload pr \<longrightarrow>
            (verify_proof rt secret (pr\<lparr>payload := p'\<rparr>) \<longrightarrow>
               stringify (number_toString rt) (payload_json p')
                 \<noteq> stringify (number_toString rt) (payload_json (payload pr))
               \<and> sha256_hex rt (stringify (number_toString rt) (payload_json p'))
                 = sha256_hex rt (stringify (number_toString rt) (payload_json (payload pr))))
            \<and> (inj (sha256_hex rt) \<longrightarrow> \<not> verify_proof rt secret (pr\<lparr>payload := p'\<rparr>)))"
proof -
  from assms obtain agent where
    agent: "getAgent db caller = Some agent" and
    pr: "pr = sign_payload rt config caller (build_payload config db agent caller now_s)"
    by (auto simp: generateProof_def Let_def split: if_splits option.splits)
  let ?S = "\<lambda>p. stringify (number_toString rt) (payload_json p)"
  have pay: "payload pr = build_payload config db agent caller now_s"
    and hash: "proof_hash pr = sha256_hex rt (?S (payload pr))"
    and sig: "server_signature pr = hmac_sha256_hex rt (jwtSecret config) (proof_hash pr)"
    unfolding pr by (simp_all add: sign_payload_def Let_def)
  have keys: "\<exists>kvs. payload_json (payload pr) = JObj kvs
      \<and> map fst kvs = [''agent_id'', ''backup_count'', ''chain_id'', ''contract_address'',
           ''issued_at'', ''last_heartbeat'', ''registered_at'', ''status'',
           ''trust_level'', ''trust_score'']
      \<and> sorted (map fst kvs)"
    by (simp add: payload_json_def less_eq_char_def less_char_def list_le_def)
  have ver: "verify_proof rt (jwtSecret config) pr"
    using hash sig by (simp add: verify_proof_def)
  have tamper: "(verify_proof rt secret (pr\<lparr>payload := p'\<rparr>) \<longrightarrow>
        ?S p' \<noteq> ?S (payload pr) \<and> sha256_hex rt (?S p') = sha256_hex rt (?S (payload pr)))
      \<and> (inj (sha256_hex rt) \<longrightarrow> \<not> verify_proof rt secret (pr\<lparr>payload := p'\<rparr>))"
    if fmt: "prints_injectively (number_toString rt) N"
      and n: "payload_numbers (payload pr) \<subseteq> N" and n': "payload_numbers p' \<subseteq> N"
      and ne: "p' \<noteq> payload pr"
  proof -
    from stringify_payload_inj [OF fmt n' n] ne have d: "?S p' \<noteq> ?S (payload pr)" by blast
    have v: "sha256_hex rt (?S p') = sha256_hex rt (?S (payload pr))"
      if "verify_proof rt secret (pr\<lparr>payload := p'\<rparr>)"
      using that hash by (simp add: verify_proof_def)
    from d v show ?thesis by (auto dest: injD)
  qed
  from agent pay keys hash sig ver tamper show ?thesis by blast
qed

theorem identity_proof_witness:
  "verify_proof example_runtime ''secret'' example_proof
   \<and> \<not> verify_proof example_runtime ''secret''
         (example_proof\<lparr>payload := example_payload\<lparr>trust_score := 100\<rparr>\<rparr>)
   \<and> proof_hash example_proof
     = example_digest (stringify example_number_toString (payload_json example_payload))"
proof -
  let ?p' = "example_payload\<lparr>trust_score := 100\<rparr>"
  have s: "jwtSecret example_config = ''secret''" by (simp add: example_config_def)
  have r: "sha256_hex example_runtime = example_digest"
    "number_toString example_runtime = example_number_toString"
    by (simp_all add: example_runtime_def)
  have p: "payload example_proof = example_payload"
    by (simp add: example_proof_def sign_payload_def Let_def)
  have i: "inj example_digest" by (simp add: inj_def example_digest_def)
  have n: "payload_numbers example_payload \<subseteq> example_numbers"
    by (simp add: payload_numbers_def example_payload_def example_numbers_def)
  have n': "payload_numbers ?p' \<subseteq> example_numbers"
    by (simp add: payload_numbers_def example_payload_def example_numbers_def)
  have ne: "?p' \<noteq> example_payload" by (simp add: example_payload_def)
  from identity_proof [OF example_generateProof, of example_numbers ?p' "''secret''"]
    s r p i n n' ne example_prints_injectively
  show ?thesis by simp
qed

end
